theory Spec2Isabelle
  imports Main "HOL-Library.Word"
begin

section \<open>Shared vocabulary\<close>

text \<open>
  Errors are values. Go wraps an error with a context string
  (\<^verbatim>\<open>fmt.Errorf("storing ETH transfers batch: %w", err)\<close>); \<open>Wrap\<close> keeps that
  structure. The root causes are the failures of the collaborators the code talks to:
  the database driver and the upstream HTTP feed.
\<close>

datatype error =
    DbFault
  | NoRows
  | TransportError
  | BadStatusCode
  | MalformedPayload
  | ApiError
  | Message string
  | Wrap string error

text \<open>
  \<^verbatim>\<open>strings.ToLower\<close> on the ASCII range, which is where hexadecimal addresses live:
  the letters A to Z are mapped to a to z, every other byte is kept.
\<close>

definition toLowerChar :: "char \<Rightarrow> char" where
  "toLowerChar c =
     (case map_of (zip ''ABCDEFGHIJKLMNOPQRSTUVWXYZ'' ''abcdefghijklmnopqrstuvwxyz'') c of
        Some l \<Rightarrow> l
      | None \<Rightarrow> c)"

definition ToLower :: "string \<Rightarrow> string" where
  "ToLower s = map toLowerChar s"

section \<open>Storage: the transfers table\<close>

text \<open>
  A row of the \<^verbatim>\<open>transfers\<close> table, restricted to the seven columns that
  \<^verbatim>\<open>AddTransfersBatch\<close> writes (the columns \<^verbatim>\<open>id\<close> and \<^verbatim>\<open>created_at\<close> are
  filled by the database and never read by the code modelled here). Instants are
  nanoseconds since the Unix epoch.
\<close>

type_synonym time = int

record Transfer =
  Hash :: string
  BlockNumber :: int
  Timestamp :: time
  FromAddress :: string
  ToAddress :: string
  TokenAddress :: string
  Amount :: string

text \<open>The database: the transfers table, the key/value config table, the source addresses.\<close>

record db =
  transfers :: "Transfer list"
  config :: "string \<rightharpoonup> string"
  source_addresses :: "string list"

text \<open>
  The table constraint \<^verbatim>\<open>UNIQUE(hash, token_address, from_address, to_address)\<close> of the
  migration.
\<close>

definition unique_key :: "Transfer \<Rightarrow> string \<times> string \<times> string \<times> string" where
  "unique_key r = (Hash r, TokenAddress r, FromAddress r, ToAddress r)"

definition unique_constraint :: "Transfer list \<Rightarrow> bool" where
  "unique_constraint rows = distinct (map unique_key rows)"

text \<open>
  \<^verbatim>\<open>INSERT ... ON CONFLICT (hash, token_address, from_address, to_address) DO NOTHING\<close>:
  the row is appended unless a row with its key is already there.
\<close>

definition insert_on_conflict_do_nothing :: "Transfer list \<Rightarrow> Transfer \<Rightarrow> Transfer list" where
  "insert_on_conflict_do_nothing rows r =
     (if unique_key r \<in> unique_key ` set rows then rows else rows @ [r])"

text \<open>The three assignments at the head of the loop body of \<^verbatim>\<open>AddTransfersBatch\<close>.\<close>

definition normalize_addresses :: "Transfer \<Rightarrow> Transfer" where
  "normalize_addresses t =
     t\<lparr>FromAddress := ToLower (FromAddress t),
       ToAddress := ToLower (ToAddress t),
       TokenAddress := ToLower (TokenAddress t)\<rparr>"

text \<open>
  What the database driver may do to one call of \<^verbatim>\<open>AddTransfersBatch\<close>: each of
  \<^verbatim>\<open>BeginTxx\<close>, \<^verbatim>\<open>PreparexContext\<close>, the \<open>i\<close>-th \<^verbatim>\<open>ExecContext\<close> (counted from 0)
  and \<^verbatim>\<open>Commit\<close> may return an error. The code has no influence on these outcomes,
  so they are a parameter of the call.
\<close>

record tx_faults =
  begin_fails :: bool
  prepare_fails :: bool
  exec_fails :: "nat \<Rightarrow> bool"
  commit_fails :: bool

definition no_faults :: tx_faults where
  "no_faults = \<lparr>begin_fails = False, prepare_fails = False,
                 exec_fails = (\<lambda>_. False), commit_fails = False\<rparr>"

text \<open>
  An open transaction works on its own copy of the table. \<^verbatim>\<open>Commit\<close> publishes the
  copy, \<^verbatim>\<open>Rollback\<close> (run by the deferred function whenever \<^verbatim>\<open>err != nil\<close>) drops it;
  a \<^verbatim>\<open>Commit\<close> that returns an error has published nothing.
\<close>

definition BeginTxx :: "db \<Rightarrow> Transfer list" where
  "BeginTxx d = transfers d"

definition Commit :: "db \<Rightarrow> Transfer list \<Rightarrow> db" where
  "Commit d work = d\<lparr>transfers := work\<rparr>"

definition Rollback :: "db \<Rightarrow> Transfer list \<Rightarrow> db" where
  "Rollback d work = d"

text \<open>
  The \<^verbatim>\<open>for _, transfer := range transfers\<close> loop: normalise, execute the prepared
  statement, return at the first error.
\<close>

fun exec_loop :: "(nat \<Rightarrow> bool) \<Rightarrow> nat \<Rightarrow> Transfer list \<Rightarrow> Transfer list \<Rightarrow> error + Transfer list" where
  "exec_loop fails i work [] = Inr work"
| "exec_loop fails i work (t # ts) =
     (let t' = normalize_addresses t in
      if fails i then Inl (Wrap ''executing statement'' DbFault)
      else exec_loop fails (Suc i) (insert_on_conflict_do_nothing work t') ts)"

definition AddTransfersBatch :: "tx_faults \<Rightarrow> db \<Rightarrow> Transfer list \<Rightarrow> error option \<times> db" where
  "AddTransfersBatch f d ts =
     (if length ts = 0 then (None, d)
      else if begin_fails f then (Some (Wrap ''beginning transaction'' DbFault), d)
      else
        let work = BeginTxx d in
        if prepare_fails f then (Some (Wrap ''preparing statement'' DbFault), Rollback d work)
        else
          (case exec_loop (exec_fails f) 0 work ts of
             Inl e \<Rightarrow> (Some e, Rollback d work)
           | Inr work' \<Rightarrow>
               if commit_fails f
               then (Some (Wrap ''committing transaction'' DbFault), Rollback d work')
               else (None, Commit d work')))"

text \<open>The table after every record of a batch went through the insert statement.\<close>

definition insert_all :: "Transfer list \<Rightarrow> Transfer list \<Rightarrow> Transfer list" where
  "insert_all rows ts = foldl insert_on_conflict_do_nothing rows (map normalize_addresses ts)"

definition fault_free :: "tx_faults \<Rightarrow> nat \<Rightarrow> bool" where
  "fault_free f n \<longleftrightarrow>
     \<not> begin_fails f \<and> \<not> prepare_fails f \<and> (\<forall>i<n. \<not> exec_fails f i) \<and> \<not> commit_fails f"

definition rows_with_key :: "Transfer list \<Rightarrow> string \<times> string \<times> string \<times> string \<Rightarrow> nat" where
  "rows_with_key rows k = length (filter (\<lambda>r. unique_key r = k) rows)"

subsection \<open>Sample rows and fault scripts for the storage layer\<close>

definition row1 :: Transfer where
  "row1 = \<lparr>Hash = ''0xh1'', BlockNumber = 100, Timestamp = 1700000000000000000,
           FromAddress = ''0xAA'', ToAddress = ''0xbb'',
           TokenAddress = ''0x0000000000000000000000000000000000000000'', Amount = ''5''\<rparr>"

definition row2 :: Transfer where
  "row2 = \<lparr>Hash = ''0xh2'', BlockNumber = 101, Timestamp = 1700000012000000000,
           FromAddress = ''0xaa'', ToAddress = ''0xCC'',
           TokenAddress = ''0xT1'', Amount = ''7''\<rparr>"

definition db0 :: db where
  "db0 = \<lparr>transfers = [], config = Map.empty, source_addresses = []\<rparr>"

definition second_exec_fails :: tx_faults where
  "second_exec_fails = \<lparr>begin_fails = False, prepare_fails = False,
                 exec_fails = (\<lambda>i. i = 1), commit_fails = False\<rparr>"

section \<open>Storage: the cursor queries\<close>

text \<open>
  SQL aggregates over a column. \<^verbatim>\<open>MAX\<close> and \<^verbatim>\<open>MIN\<close> of no rows are \<^verbatim>\<open>NULL\<close>
  (\<open>None\<close>), and \<^verbatim>\<open>COALESCE(x, 0)\<close> replaces \<^verbatim>\<open>NULL\<close> by 0.
\<close>

fun sql_MAX :: "int list \<Rightarrow> int option" where
  "sql_MAX [] = None"
| "sql_MAX (x # xs) = Some (fold max xs x)"

fun sql_MIN :: "int list \<Rightarrow> int option" where
  "sql_MIN [] = None"
| "sql_MIN (x # xs) = Some (fold min xs x)"

definition COALESCE :: "int option \<Rightarrow> int \<Rightarrow> int" where
  "COALESCE v dflt = (case v of None \<Rightarrow> dflt | Some x \<Rightarrow> x)"

text \<open>The zero address that stands for the native asset.\<close>

definition native_sentinel :: string where
  "native_sentinel = ''0x0000000000000000000000000000000000000000''"

text \<open>\<^verbatim>\<open>WHERE (from_address = $1 OR to_address = $1)\<close>\<close>

definition involves :: "string \<Rightarrow> Transfer \<Rightarrow> bool" where
  "involves address r \<longleftrightarrow> FromAddress r = address \<or> ToAddress r = address"

text \<open>
  \<^verbatim>\<open>GetLastProcessedBlock\<close>. The Go function returns a pair \<^verbatim>\<open>(int64, error)\<close>, with
  the number 0 beside a non-nil error; the first argument says whether the driver fails
  the query.
\<close>

definition GetLastProcessedBlock :: "bool \<Rightarrow> db \<Rightarrow> string \<Rightarrow> string \<Rightarrow> int \<times> error option" where
  "GetLastProcessedBlock query_fails d address0 tokenAddress0 =
     (let address = ToLower address0;
          tokenAddress = ToLower tokenAddress0;
          selected =
            (if tokenAddress = '''' \<or> tokenAddress = ''0x0000000000000000000000000000000000000000''
             then filter (\<lambda>r. involves address r \<and>
                                TokenAddress r = ''0x0000000000000000000000000000000000000000'')
                         (transfers d)
             else filter (\<lambda>r. involves address r \<and> TokenAddress r = tokenAddress) (transfers d));
          lastBlock = COALESCE (sql_MAX (map BlockNumber selected)) 0
      in if query_fails
         then (0, Some (Wrap ''getting last processed block'' DbFault))
         else (lastBlock, None))"

text \<open>
  \<^verbatim>\<open>GetLastProcessedBlockForERC20\<close>: the inner query groups the non-native rows of the
  address by \<^verbatim>\<open>token_address\<close> and takes each group's \<^verbatim>\<open>MAX(block_number)\<close>; the outer
  query takes the \<^verbatim>\<open>MIN\<close> of these.
\<close>

definition token_blocks :: "Transfer list \<Rightarrow> string \<Rightarrow> (string \<times> int) list" where
  "token_blocks rows address =
     (let selected = filter (\<lambda>r. involves address r \<and>
                                   TokenAddress r \<noteq> ''0x0000000000000000000000000000000000000000'')
                            rows
      in map (\<lambda>g. (g, COALESCE (sql_MAX (map BlockNumber
                                      (filter (\<lambda>r. TokenAddress r = g) selected))) 0))
             (remdups (map TokenAddress selected)))"

definition GetLastProcessedBlockForERC20 :: "bool \<Rightarrow> db \<Rightarrow> string \<Rightarrow> int \<times> error option" where
  "GetLastProcessedBlockForERC20 query_fails d address0 =
     (let address = ToLower address0;
          lastBlock = COALESCE (sql_MIN (map snd (token_blocks (transfers d) address))) 0
      in if query_fails
         then (0, Some (Wrap ''getting last processed block for ERC20 tokens'' DbFault))
         else (lastBlock, None))"

text \<open>
  The cursor as the specification words it, on sets: the block numbers of the native rows
  of an address, the non-native assets seen for it, and the block numbers of one asset.
\<close>

definition native_blocks :: "Transfer list \<Rightarrow> string \<Rightarrow> int set" where
  "native_blocks rows a =
     BlockNumber ` {r \<in> set rows. involves a r \<and> TokenAddress r = native_sentinel}"

definition assets_seen :: "Transfer list \<Rightarrow> string \<Rightarrow> string set" where
  "assets_seen rows a =
     TokenAddress ` {r \<in> set rows. involves a r \<and> TokenAddress r \<noteq> native_sentinel}"

definition asset_blocks :: "Transfer list \<Rightarrow> string \<Rightarrow> string \<Rightarrow> int set" where
  "asset_blocks rows a g =
     BlockNumber ` {r \<in> set rows. involves a r \<and> TokenAddress r = g}"

definition spec_native_cursor :: "Transfer list \<Rightarrow> string \<Rightarrow> int" where
  "spec_native_cursor rows a =
     (if native_blocks rows a = {} then 0 else Max (native_blocks rows a))"

definition spec_token_cursor :: "Transfer list \<Rightarrow> string \<Rightarrow> int" where
  "spec_token_cursor rows a =
     (if assets_seen rows a = {} then 0
      else Min ((\<lambda>g. Max (asset_blocks rows a g)) ` assets_seen rows a))"

subsection \<open>A sample ledger: token A up to block 100, token B up to block 50\<close>

definition mk_row :: "string \<Rightarrow> int \<Rightarrow> string \<Rightarrow> string \<Rightarrow> string \<Rightarrow> Transfer" where
  "mk_row h b f t tok =
     \<lparr>Hash = h, BlockNumber = b, Timestamp = 0, FromAddress = f, ToAddress = t,
      TokenAddress = tok, Amount = ''1''\<rparr>"

definition ledger_AB :: db where
  "ledger_AB =
     \<lparr>transfers =
        [mk_row ''0x01'' 90 ''0xaa'' ''0xbb'' ''0xtokena'',
         mk_row ''0x02'' 50 ''0xcc'' ''0xaa'' ''0xtokenb'',
         mk_row ''0x03'' 100 ''0xaa'' ''0xdd'' ''0xtokena'',
         mk_row ''0x04'' 70 ''0xaa'' ''0xdd'' ''0x0000000000000000000000000000000000000000'',
         mk_row ''0x05'' 30 ''0xee'' ''0xaa'' ''0x0000000000000000000000000000000000000000'',
         mk_row ''0x06'' 900 ''0xee'' ''0xff'' ''0xtokenb''],
      config = Map.empty, source_addresses = [''0xaa'']\<rparr>"

section \<open>The Etherscan client\<close>

text \<open>
  \<^verbatim>\<open>strconv.ParseInt(s, 10, 64)\<close>: an optional sign, then one or more decimal digits and
  nothing else; the value has to fit a signed 64-bit integer. \<open>None\<close> stands for a
  non-nil error (syntax or range), after which the callers drop the record.
\<close>

definition digit_value :: "char \<Rightarrow> nat option" where
  "digit_value c = map_of (zip ''0123456789'' [0, 1, 2, 3, 4, 5, 6, 7, 8, 9]) c"

fun parse_digits :: "nat \<Rightarrow> string \<Rightarrow> nat option" where
  "parse_digits acc [] = Some acc"
| "parse_digits acc (c # cs) =
     (case digit_value c of
        None \<Rightarrow> None
      | Some v \<Rightarrow> parse_digits (acc * 10 + v) cs)"

definition ParseUint :: "string \<Rightarrow> nat option" where
  "ParseUint s = (if s = [] then None else parse_digits 0 s)"

definition ParseInt :: "string \<Rightarrow> int option" where
  "ParseInt s0 =
     (if s0 = [] then None
      else
        let neg = (hd s0 = CHR ''-'');
            s = (if hd s0 = CHR ''+'' \<or> hd s0 = CHR ''-'' then tl s0 else s0)
        in case ParseUint s of
             None \<Rightarrow> None
           | Some un \<Rightarrow>
               if \<not> neg \<and> un \<ge> 2 ^ 63 then None
               else if neg \<and> un > 2 ^ 63 then None
               else Some (if neg then - int un else int un))"

text \<open>The transaction objects returned by the feed; every field is a string.\<close>

record ETHTransaction =
  eth_BlockNumber :: string
  eth_TimeStamp :: string
  eth_Hash :: string
  eth_From :: string
  eth_To :: string
  eth_Value :: string
  eth_GasPrice :: string
  eth_Gas :: string
  eth_IsError :: string
  eth_TxReceiptStatus :: string

record ERC20Transaction =
  erc_BlockNumber :: string
  erc_TimeStamp :: string
  erc_Hash :: string
  erc_From :: string
  erc_To :: string
  erc_Value :: string
  erc_TokenName :: string
  erc_TokenSymbol :: string
  erc_TokenDecimal :: string
  erc_ContractAddress :: string
  erc_TransactionIndex :: string
  erc_Gas :: string
  erc_GasPrice :: string
  erc_GasUsed :: string
  erc_CumulativeGasUsed :: string
  erc_Confirmations :: string

definition defaultOffset :: nat where
  "defaultOffset = 10000"

definition defaultPage :: nat where
  "defaultPage = 1"

text \<open>
  \<^verbatim>\<open>time.Unix(sec, 0)\<close> as an instant in nanoseconds. Instants are unbounded integers
  here: the limits of the library's own representation, which lie far outside calendar
  dates, are not modelled.
\<close>

definition time_Unix :: "int \<Rightarrow> time" where
  "time_Unix sec = sec * 1000000000"

text \<open>
  The test of the filter loop:
  \<^verbatim>\<open>(txTime.After(startTime) || txTime.Equal(startTime)) &&
   (txTime.Before(endTime) || txTime.Equal(endTime))\<close>.
\<close>

definition in_window :: "time \<Rightarrow> time \<Rightarrow> time \<Rightarrow> bool" where
  "in_window startTime endTime txTime \<longleftrightarrow>
     (txTime > startTime \<or> txTime = startTime) \<and> (txTime < endTime \<or> txTime = endTime)"

text \<open>
  The inner loop over one page. The two Go functions \<^verbatim>\<open>fetchETHTransactions\<close> and
  \<^verbatim>\<open>fetchERC20Transactions\<close> have the same body on different element types, so the loop
  takes the accessor of the \<^verbatim>\<open>TimeStamp\<close> field as its first argument.
  A timestamp that does not parse skips the record (\<^verbatim>\<open>continue\<close>).
\<close>

fun filter_page :: "('tx \<Rightarrow> string) \<Rightarrow> time \<Rightarrow> time \<Rightarrow> 'tx list \<Rightarrow> 'tx list \<Rightarrow> 'tx list" where
  "filter_page stamp startTime endTime filteredTxs [] = filteredTxs"
| "filter_page stamp startTime endTime filteredTxs (tx # txs) =
     (case ParseInt (stamp tx) of
        None \<Rightarrow> filter_page stamp startTime endTime filteredTxs txs
      | Some timestamp \<Rightarrow>
          if in_window startTime endTime (time_Unix timestamp)
          then filter_page stamp startTime endTime (filteredTxs @ [tx]) txs
          else filter_page stamp startTime endTime filteredTxs txs)"

text \<open>
  The outer \<^verbatim>\<open>for\<close> loop. \<open>doRequest page\<close> is the outcome of the HTTP request for
  that page (all other parameters are fixed during one call): an error, or the decoded
  array. The loop has no bound of its own, it runs until a page is shorter than
  \<^verbatim>\<open>offset\<close>; \<open>None\<close> is the run that never ends.
\<close>

partial_function (option) fetch_loop ::
  "('tx \<Rightarrow> string) \<Rightarrow> (nat \<Rightarrow> error + 'tx list) \<Rightarrow> time \<Rightarrow> time \<Rightarrow> nat \<Rightarrow> 'tx list
     \<Rightarrow> (error + 'tx list) option" where
  "fetch_loop stamp doRequest startTime endTime page allTransactions =
     (case doRequest page of
        Inl err \<Rightarrow> Some (Inl err)
      | Inr transactions \<Rightarrow>
          let allTransactions' =
                allTransactions @ filter_page stamp startTime endTime [] transactions
          in if length transactions < defaultOffset then Some (Inr allTransactions')
             else fetch_loop stamp doRequest startTime endTime (page + 1) allTransactions')"

text \<open>
  The calls of \<^verbatim>\<open>rateLimit\<close> between pages and at the head of \<^verbatim>\<open>GetETHTransfers\<close> and
  \<^verbatim>\<open>GetERC20Transfers\<close> only sleep and record the time of the last request; they have no
  part in what is returned and are left out.
\<close>

definition fetchETHTransactions ::
  "(nat \<Rightarrow> error + ETHTransaction list) \<Rightarrow> time \<Rightarrow> time \<Rightarrow> (error + ETHTransaction list) option" where
  "fetchETHTransactions doRequest startTime endTime =
     fetch_loop eth_TimeStamp doRequest startTime endTime defaultPage []"

definition fetchERC20Transactions ::
  "(nat \<Rightarrow> error + ERC20Transaction list) \<Rightarrow> time \<Rightarrow> time \<Rightarrow> (error + ERC20Transaction list) option" where
  "fetchERC20Transactions doRequest startTime endTime =
     fetch_loop erc_TimeStamp doRequest startTime endTime defaultPage []"

text \<open>
  The upstream feed as the client sees it: for an action, an address, an optional contract
  address, a start block and a page number, what \<^verbatim>\<open>doRequest\<close> returns.
\<close>

definition defaultStartBlock :: int where
  "defaultStartBlock = 0"

definition GetETHTransfers ::
  "(string \<Rightarrow> int \<Rightarrow> nat \<Rightarrow> error + ETHTransaction list) \<Rightarrow> string \<Rightarrow> time \<Rightarrow> time \<Rightarrow> int
     \<Rightarrow> (error + ETHTransaction list) option" where
  "GetETHTransfers feed address startTime endTime startBlock0 =
     (let startBlock = (if startBlock0 \<le> 0 then defaultStartBlock else startBlock0)
      in fetchETHTransactions (feed address startBlock) startTime endTime)"

definition GetERC20Transfers ::
  "(string \<Rightarrow> string \<Rightarrow> int \<Rightarrow> nat \<Rightarrow> error + ERC20Transaction list) \<Rightarrow> string \<Rightarrow> string
     \<Rightarrow> time \<Rightarrow> time \<Rightarrow> int \<Rightarrow> (error + ERC20Transaction list) option" where
  "GetERC20Transfers feed address tokenAddress startTime endTime startBlock0 =
     (let startBlock = (if startBlock0 \<le> 0 then defaultStartBlock else startBlock0)
      in fetchERC20Transactions (feed address tokenAddress startBlock) startTime endTime)"

text \<open>
  Vocabulary for the window property: the records of a page that parse and lie in the
  window, the content of a page, and the pages a fetch goes through when page \<open>k\<close> is
  the first short one.
\<close>

definition keeps :: "('tx \<Rightarrow> string) \<Rightarrow> time \<Rightarrow> time \<Rightarrow> 'tx \<Rightarrow> bool" where
  "keeps stamp startTime endTime tx =
     (case ParseInt (stamp tx) of
        None \<Rightarrow> False
      | Some timestamp \<Rightarrow> startTime \<le> time_Unix timestamp \<and> time_Unix timestamp \<le> endTime)"

definition page_of :: "(nat \<Rightarrow> error + 'tx list) \<Rightarrow> nat \<Rightarrow> 'tx list" where
  "page_of doRequest p = (case doRequest p of Inl _ \<Rightarrow> [] | Inr txs \<Rightarrow> txs)"

definition full_page :: "(nat \<Rightarrow> error + 'tx list) \<Rightarrow> nat \<Rightarrow> bool" where
  "full_page doRequest p =
     (case doRequest p of Inl _ \<Rightarrow> False | Inr txs \<Rightarrow> defaultOffset \<le> length txs)"

definition short_page :: "(nat \<Rightarrow> error + 'tx list) \<Rightarrow> nat \<Rightarrow> bool" where
  "short_page doRequest p =
     (case doRequest p of Inl _ \<Rightarrow> False | Inr txs \<Rightarrow> length txs < defaultOffset)"

definition ends_at :: "(nat \<Rightarrow> error + 'tx list) \<Rightarrow> nat \<Rightarrow> bool" where
  "ends_at doRequest k \<longleftrightarrow>
     1 \<le> k \<and> (\<forall>p. 1 \<le> p \<and> p < k \<longrightarrow> full_page doRequest p) \<and> short_page doRequest k"

subsection \<open>A sample page around the window from 1700000000 to 1700003600 (Unix seconds)\<close>

definition mk_eth :: "string \<Rightarrow> string \<Rightarrow> string \<Rightarrow> string \<Rightarrow> string \<Rightarrow> string \<Rightarrow> ETHTransaction" where
  "mk_eth h b ts f t err =
     \<lparr>eth_BlockNumber = b, eth_TimeStamp = ts, eth_Hash = h, eth_From = f, eth_To = t,
      eth_Value = ''1000'', eth_GasPrice = ''1'', eth_Gas = ''21000'', eth_IsError = err,
      eth_TxReceiptStatus = ''1''\<rparr>"

definition mk_erc :: "string \<Rightarrow> string \<Rightarrow> string \<Rightarrow> string \<Rightarrow> string \<Rightarrow> string \<Rightarrow> ERC20Transaction" where
  "mk_erc h b ts f t c =
     \<lparr>erc_BlockNumber = b, erc_TimeStamp = ts, erc_Hash = h, erc_From = f, erc_To = t,
      erc_Value = ''2000'', erc_TokenName = ''Token'', erc_TokenSymbol = ''TKN'',
      erc_TokenDecimal = ''18'', erc_ContractAddress = c, erc_TransactionIndex = ''0'',
      erc_Gas = ''60000'', erc_GasPrice = ''1'', erc_GasUsed = ''50000'',
      erc_CumulativeGasUsed = ''50000'', erc_Confirmations = ''10''\<rparr>"

definition T0 :: time where
  "T0 = 1700000000000000000"

definition T2 :: time where
  "T2 = 1700003600000000000"

definition eth_page :: "nat \<Rightarrow> error + ETHTransaction list" where
  "eth_page p =
     (if p = 1 then
        Inr [mk_eth ''0xe1'' ''10'' ''1699999999'' ''0xaa'' ''0xbb'' ''0'',
             mk_eth ''0xe2'' ''11'' ''1700000000'' ''0xaa'' ''0xbb'' ''0'',
             mk_eth ''0xe3'' ''12'' ''1700001800'' ''0xaa'' ''0xbb'' ''0'',
             mk_eth ''0xe4'' ''13'' ''soon'' ''0xaa'' ''0xbb'' ''0'',
             mk_eth ''0xe5'' ''14'' ''1700003600'' ''0xaa'' ''0xbb'' ''0'',
             mk_eth ''0xe6'' ''15'' ''1700003601'' ''0xaa'' ''0xbb'' ''0'']
      else Inr [])"

definition erc_page :: "nat \<Rightarrow> error + ERC20Transaction list" where
  "erc_page p =
     (if p = 1 then
        Inr [mk_erc ''0xf1'' ''10'' ''1699999999'' ''0xaa'' ''0xbb'' ''0xt1'',
             mk_erc ''0xf2'' ''11'' ''1700000000'' ''0xaa'' ''0xbb'' ''0xt1'',
             mk_erc ''0xf3'' ''13'' ''1700003600'' ''0xaa'' ''0xbb'' ''0xt2'',
             mk_erc ''0xf4'' ''14'' ''1700003601'' ''0xaa'' ''0xbb'' ''0xt2'']
      else Inr [])"

section \<open>Storage: the config table and the address listing\<close>

text \<open>
  \<^verbatim>\<open>GetConfig\<close>: a missing key is \<^verbatim>\<open>sql.ErrNoRows\<close>. \<^verbatim>\<open>UpdateConfig\<close>: an
  \<^verbatim>\<open>UPDATE\<close> followed, when no row was affected, by an \<^verbatim>\<open>INSERT\<close>; in both cases the key
  holds the value afterwards. The first argument says whether the driver fails the call.
\<close>

definition GetConfig :: "bool \<Rightarrow> db \<Rightarrow> string \<Rightarrow> error + string" where
  "GetConfig query_fails d key =
     (if query_fails then Inl (Wrap ''getting config'' DbFault)
      else case config d key of
             None \<Rightarrow> Inl (Wrap ''getting config'' NoRows)
           | Some v \<Rightarrow> Inr v)"

definition UpdateConfig :: "bool \<Rightarrow> db \<Rightarrow> string \<Rightarrow> string \<Rightarrow> error option \<times> db" where
  "UpdateConfig write_fails d key v =
     (if write_fails then (Some (Wrap ''updating config'' DbFault), d)
      else (None, d\<lparr>config := (config d)(key \<mapsto> v)\<rparr>))"

definition GetSourceAddresses :: "bool \<Rightarrow> db \<Rightarrow> error + string list" where
  "GetSourceAddresses query_fails d =
     (if query_fails then Inl (Wrap ''getting source addresses'' DbFault)
      else Inr (source_addresses d))"

section \<open>The transfer service\<close>

definition configKeyLastETHUpdate :: string where
  "configKeyLastETHUpdate = ''last_eth_update''"

definition configKeyLastTokenUpdate :: string where
  "configKeyLastTokenUpdate = ''last_token_update''"

definition configKeyDailyRefreshTime :: string where
  "configKeyDailyRefreshTime = ''daily_refresh_time''"

definition configKeyMinRefreshInterval :: string where
  "configKeyMinRefreshInterval = ''min_refresh_interval_hours''"

definition defaultMinRefreshIntervalHrs :: int where
  "defaultMinRefreshIntervalHrs = 1"

text \<open>
  Everything outside the process that one run of \<^verbatim>\<open>FetchAndStoreTransfers\<close> meets: what
  the feed answers to a request (by address, contract filter, start block and page), which
  database calls fail, and the clock. \<open>one_month_before\<close> is \<^verbatim>\<open>AddDate(0, -1, 0)\<close> and
  \<open>now_stamp\<close> is \<^verbatim>\<open>time.Now().Format(time.RFC3339)\<close> at the end of the run; both are
  library computations and are taken as given.
\<close>

record env =
  eth_feed :: "string \<Rightarrow> int \<Rightarrow> nat \<Rightarrow> error + ETHTransaction list"
  erc20_feed :: "string \<Rightarrow> string \<Rightarrow> int \<Rightarrow> nat \<Rightarrow> error + ERC20Transaction list"
  list_fails :: bool
  eth_cursor_fails :: "string \<Rightarrow> bool"
  erc20_cursor_fails :: "string \<Rightarrow> bool"
  eth_batch_faults :: "string \<Rightarrow> tx_faults"
  erc20_batch_faults :: "string \<Rightarrow> tx_faults"
  config_write_fails :: "string \<Rightarrow> bool"
  now_fetch :: time
  one_month_before :: "time \<Rightarrow> time"
  now_stamp :: string

text \<open>
  The loop \<^verbatim>\<open>for _, tx := range transactions\<close> of \<^verbatim>\<open>fetchAndStoreETHTransfers\<close>: a
  transaction whose \<^verbatim>\<open>IsError\<close> is not \<^verbatim>\<open>"0"\<close> is skipped, then one whose block number
  or timestamp does not parse; the others are appended to the batch.
\<close>

fun eth_batch :: "Transfer list \<Rightarrow> ETHTransaction list \<Rightarrow> Transfer list" where
  "eth_batch batch [] = batch"
| "eth_batch batch (tx # txs) =
     (if eth_IsError tx \<noteq> ''0'' then eth_batch batch txs
      else case ParseInt (eth_BlockNumber tx) of
             None \<Rightarrow> eth_batch batch txs
           | Some blockNumber \<Rightarrow>
               (case ParseInt (eth_TimeStamp tx) of
                  None \<Rightarrow> eth_batch batch txs
                | Some timestamp \<Rightarrow>
                    eth_batch
                      (batch @
                         [\<lparr>Hash = eth_Hash tx, BlockNumber = blockNumber,
                           Timestamp = time_Unix timestamp, FromAddress = eth_From tx,
                           ToAddress = eth_To tx,
                           TokenAddress = ''0x0000000000000000000000000000000000000000'',
                           Amount = eth_Value tx\<rparr>])
                      txs))"

text \<open>The same loop of \<^verbatim>\<open>fetchAndStoreAllERC20Transfers\<close>; it starts at the block number.\<close>

fun erc20_batch :: "Transfer list \<Rightarrow> ERC20Transaction list \<Rightarrow> Transfer list" where
  "erc20_batch batch [] = batch"
| "erc20_batch batch (tx # txs) =
     (case ParseInt (erc_BlockNumber tx) of
        None \<Rightarrow> erc20_batch batch txs
      | Some blockNumber \<Rightarrow>
          (case ParseInt (erc_TimeStamp tx) of
             None \<Rightarrow> erc20_batch batch txs
           | Some timestamp \<Rightarrow>
               erc20_batch
                 (batch @
                    [\<lparr>Hash = erc_Hash tx, BlockNumber = blockNumber,
                      Timestamp = time_Unix timestamp, FromAddress = erc_From tx,
                      ToAddress = erc_To tx, TokenAddress = erc_ContractAddress tx,
                      Amount = erc_Value tx\<rparr>])
                 txs))"

definition fetchAndStoreETHTransfers ::
  "env \<Rightarrow> db \<Rightarrow> string \<Rightarrow> time \<Rightarrow> time \<Rightarrow> (error option \<times> db) option" where
  "fetchAndStoreETHTransfers w d address startTime endTime =
     (let ethTokenAddress = ''0x0000000000000000000000000000000000000000'';
          cursor = GetLastProcessedBlock (eth_cursor_fails w address) d address ethTokenAddress;
          lastBlock = (if snd cursor \<noteq> None then 0 else fst cursor)
      in case GetETHTransfers (eth_feed w) address startTime endTime lastBlock of
           None \<Rightarrow> None
         | Some (Inl err) \<Rightarrow> Some (Some (Wrap ''fetching ETH transfers'' err), d)
         | Some (Inr transactions) \<Rightarrow>
             (let batch = eth_batch [] transactions
              in if length batch > 0
                 then (case AddTransfersBatch (eth_batch_faults w address) d batch of
                         (Some err, d') \<Rightarrow> Some (Some (Wrap ''storing ETH transfers batch'' err), d')
                       | (None, d') \<Rightarrow> Some (None, d'))
                 else Some (None, d)))"

definition fetchAndStoreAllERC20Transfers ::
  "env \<Rightarrow> db \<Rightarrow> string \<Rightarrow> time \<Rightarrow> time \<Rightarrow> (error option \<times> db) option" where
  "fetchAndStoreAllERC20Transfers w d address startTime endTime =
     (let cursor = GetLastProcessedBlockForERC20 (erc20_cursor_fails w address) d address;
          lastBlock = (if snd cursor \<noteq> None then 0 else fst cursor)
      in case GetERC20Transfers (erc20_feed w) address '''' startTime endTime lastBlock of
           None \<Rightarrow> None
         | Some (Inl err) \<Rightarrow> Some (Some (Wrap ''fetching ERC20 transfers'' err), d)
         | Some (Inr transactions) \<Rightarrow>
             (let batch = erc20_batch [] transactions
              in if length batch > 0
                 then (case AddTransfersBatch (erc20_batch_faults w address) d batch of
                         (Some err, d') \<Rightarrow> Some (Some (Wrap ''storing ERC20 transfers batch'' err), d')
                       | (None, d') \<Rightarrow> Some (None, d'))
                 else Some (None, d)))"

text \<open>
  The loop \<^verbatim>\<open>for _, sourceAddr := range sourceAddresses\<close>. An error of either step is
  logged and the loop goes on with the next address (\<^verbatim>\<open>continue\<close>); after an error of
  the native step the token step of that address is not run.
\<close>

fun sync_addresses :: "env \<Rightarrow> time \<Rightarrow> time \<Rightarrow> string list \<Rightarrow> db \<Rightarrow> db option" where
  "sync_addresses w startTime endTime [] d = Some d"
| "sync_addresses w startTime endTime (sourceAddr # rest) d =
     (case fetchAndStoreETHTransfers w d sourceAddr startTime endTime of
        None \<Rightarrow> None
      | Some r1 \<Rightarrow>
          (case fst r1 of
             Some err \<Rightarrow> sync_addresses w startTime endTime rest (snd r1)
           | None \<Rightarrow>
               (case fetchAndStoreAllERC20Transfers w (snd r1) sourceAddr startTime endTime of
                  None \<Rightarrow> None
                | Some r2 \<Rightarrow> sync_addresses w startTime endTime rest (snd r2))))"

definition FetchAndStoreTransfers :: "env \<Rightarrow> db \<Rightarrow> (error option \<times> db) option" where
  "FetchAndStoreTransfers w d =
     (case GetSourceAddresses (list_fails w) d of
        Inl err \<Rightarrow> Some (Some (Wrap ''getting source addresses'' err), d)
      | Inr sourceAddresses \<Rightarrow>
          if length sourceAddresses = 0 then Some (None, d)
          else
            let endTime = now_fetch w;
                startTime = one_month_before w endTime
            in case sync_addresses w startTime endTime sourceAddresses d of
                 None \<Rightarrow> None
               | Some d1 \<Rightarrow>
                   let now = now_stamp w;
                       d2 = snd (UpdateConfig (config_write_fails w configKeyLastETHUpdate)
                                   d1 configKeyLastETHUpdate now);
                       d3 = snd (UpdateConfig (config_write_fails w configKeyLastTokenUpdate)
                                   d2 configKeyLastTokenUpdate now)
                   in Some (None, d3))"

text \<open>
  A feed finishes when some page is not full (it is short, or the request for it fails)
  and all pages before it are full; the environment is responsive when every feed does.
\<close>

definition finishes :: "(nat \<Rightarrow> error + 'tx list) \<Rightarrow> bool" where
  "finishes doRequest \<longleftrightarrow>
     (\<exists>k. 1 \<le> k \<and> (\<forall>p. 1 \<le> p \<and> p < k \<longrightarrow> full_page doRequest p) \<and> \<not> full_page doRequest k)"

definition responsive :: "env \<Rightarrow> bool" where
  "responsive w \<longleftrightarrow>
     (\<forall>a b. finishes (eth_feed w a b)) \<and> (\<forall>a c b. finishes (erc20_feed w a c b))"

text \<open>What the steps of one address guarantee, whatever the environment does.\<close>

definition step_ok :: "db \<Rightarrow> (error option \<times> db) option \<Rightarrow> bool" where
  "step_ok d r \<longleftrightarrow>
     (\<exists>e d'. r = Some (e, d') \<and> set (transfers d) \<subseteq> set (transfers d') \<and>
        config d' = config d \<and> source_addresses d' = source_addresses d \<and> (e \<noteq> None \<longrightarrow> d' = d))"

subsection \<open>A sample run: three tracked addresses, the feed fails for the second\<close>

definition env3 :: env where
  "env3 =
     \<lparr>eth_feed = (\<lambda>a b p.
         if p = 1 then
           (if a = ''0xa1'' then
              Inr [mk_eth ''0xe1'' ''100'' ''1700000100'' ''0xa1'' ''0xB1'' ''0'',
                   mk_eth ''0xe2'' ''101'' ''1700000200'' ''0xa1'' ''0xb2'' ''1'']
            else if a = ''0xa2'' then Inl TransportError
            else if a = ''0xa3'' then
              Inr [mk_eth ''0xe3'' ''102'' ''1700000300'' ''0xa3'' ''0xb3'' ''0'']
            else Inr [])
         else Inr []),
      erc20_feed = (\<lambda>a c b p.
         if p = 1 then
           (if a = ''0xa1'' then
              Inr [mk_erc ''0xf1'' ''103'' ''1700000400'' ''0xa1'' ''0xb1'' ''0xT1'']
            else if a = ''0xa3'' then
              Inr [mk_erc ''0xf3'' ''104'' ''1700000500'' ''0xa3'' ''0xb3'' ''0xt2'',
                   mk_erc ''0xf4'' ''0x69'' ''1700000600'' ''0xa3'' ''0xb3'' ''0xt2'']
            else Inr [])
         else Inr []),
      list_fails = False,
      eth_cursor_fails = (\<lambda>_. False),
      erc20_cursor_fails = (\<lambda>_. False),
      eth_batch_faults = (\<lambda>_. no_faults),
      erc20_batch_faults = (\<lambda>_. no_faults),
      config_write_fails = (\<lambda>_. False),
      now_fetch = 1700003600000000000,
      one_month_before = (\<lambda>t. t - 2592000000000000),
      now_stamp = ''2023-11-14T23:13:20Z''\<rparr>"

definition db3 :: db where
  "db3 =
     \<lparr>transfers = [],
      config = [''last_eth_update'' \<mapsto> ''1970-01-01 00:00:00+00'',
                ''last_token_update'' \<mapsto> ''1970-01-01 00:00:00+00''],
      source_addresses = [''0xa1'', ''0xa2'', ''0xa3'']\<rparr>"

text \<open>The same database with no tracked address.\<close>

definition db_idle :: db where
  "db_idle = db3\<lparr>source_addresses := []\<rparr>"

subsection \<open>Vocabulary for the normalisation of fetched transactions\<close>

text \<open>
  A token transaction is readable when its block number and timestamp parse; a native
  transaction is accepted when, in addition, its \<^verbatim>\<open>isError\<close> flag is \<^verbatim>\<open>"0"\<close>. The ledger
  record of a readable transaction copies the fields as the two loops do.
\<close>

definition erc_readable :: "ERC20Transaction \<Rightarrow> bool" where
  "erc_readable tx \<longleftrightarrow>
     ParseInt (erc_BlockNumber tx) \<noteq> None \<and> ParseInt (erc_TimeStamp tx) \<noteq> None"

definition eth_readable :: "ETHTransaction \<Rightarrow> bool" where
  "eth_readable tx \<longleftrightarrow>
     ParseInt (eth_BlockNumber tx) \<noteq> None \<and> ParseInt (eth_TimeStamp tx) \<noteq> None"

definition erc_record :: "ERC20Transaction \<Rightarrow> Transfer" where
  "erc_record tx =
     \<lparr>Hash = erc_Hash tx, BlockNumber = the (ParseInt (erc_BlockNumber tx)),
      Timestamp = time_Unix (the (ParseInt (erc_TimeStamp tx))), FromAddress = erc_From tx,
      ToAddress = erc_To tx, TokenAddress = erc_ContractAddress tx, Amount = erc_Value tx\<rparr>"

definition eth_record :: "ETHTransaction \<Rightarrow> Transfer" where
  "eth_record tx =
     \<lparr>Hash = eth_Hash tx, BlockNumber = the (ParseInt (eth_BlockNumber tx)),
      Timestamp = time_Unix (the (ParseInt (eth_TimeStamp tx))), FromAddress = eth_From tx,
      ToAddress = eth_To tx, TokenAddress = ''0x0000000000000000000000000000000000000000'',
      Amount = eth_Value tx\<rparr>"

text \<open>The start block that \<^verbatim>\<open>fetchAndStoreAllERC20Transfers\<close> passes to the client.\<close>

definition erc20_resume_block :: "env \<Rightarrow> db \<Rightarrow> string \<Rightarrow> int" where
  "erc20_resume_block w d a =
     (if snd (GetLastProcessedBlockForERC20 (erc20_cursor_fails w a) d a) \<noteq> None then 0
      else fst (GetLastProcessedBlockForERC20 (erc20_cursor_fails w a) d a))"

section \<open>Refresh policy\<close>

text \<open>\<^verbatim>\<open>strconv.Atoi\<close> on a platform whose \<^verbatim>\<open>int\<close> has 64 bits.\<close>

definition Atoi :: "string \<Rightarrow> int option" where
  "Atoi s = ParseInt s"

definition GetRefreshInterval :: "bool \<Rightarrow> db \<Rightarrow> int \<times> error option" where
  "GetRefreshInterval query_fails d =
     (case GetConfig query_fails d configKeyMinRefreshInterval of
        Inl err \<Rightarrow> (defaultMinRefreshIntervalHrs, Some (Wrap ''getting refresh interval'' err))
      | Inr v \<Rightarrow>
          (case Atoi v of
             None \<Rightarrow> (defaultMinRefreshIntervalHrs,
                       Some (Wrap ''parsing refresh interval'' (Message v)))
           | Some hours \<Rightarrow> (hours, None)))"

text \<open>
  A \<^verbatim>\<open>time.Duration\<close> is a signed 64-bit count of nanoseconds.
  \<^verbatim>\<open>time.Since(t)\<close> is \<^verbatim>\<open>time.Now().Sub(t)\<close>, which saturates at the largest and smallest
  duration; the product \<^verbatim>\<open>time.Duration(refreshInterval) * time.Hour\<close> is an ordinary
  64-bit multiplication and wraps around.
\<close>

definition maxDuration :: int where
  "maxDuration = 9223372036854775807"

definition minDuration :: int where
  "minDuration = - 9223372036854775808"

definition time_Since :: "time \<Rightarrow> time \<Rightarrow> int" where
  "time_Since now t =
     (let d = now - t
      in if d > maxDuration then maxDuration else if d < minDuration then minDuration else d)"

definition time_Hour :: "64 word" where
  "time_Hour = 3600000000000"

definition interval_duration :: "int \<Rightarrow> int" where
  "interval_duration refreshInterval = sint (word_of_int refreshInterval * time_Hour)"

text \<open>
  \<^verbatim>\<open>ShouldRefreshData\<close>. The parser \<^verbatim>\<open>time.Parse(time.RFC3339, _)\<close> is a library function
  and a parameter here; \<open>now\<close> is the clock at the call; the two flags say whether the
  driver fails the read of the marker and of the interval. The Go function always returns
  a \<^verbatim>\<open>nil\<close> error, so the result is the boolean alone.
\<close>

definition ShouldRefreshData ::
  "(string \<Rightarrow> time option) \<Rightarrow> time \<Rightarrow> bool \<Rightarrow> bool \<Rightarrow> db \<Rightarrow> bool" where
  "ShouldRefreshData parseRFC3339 now marker_fails interval_fails d =
     (case GetConfig marker_fails d configKeyLastETHUpdate of
        Inl err \<Rightarrow> True
      | Inr lastETHUpdateStr \<Rightarrow>
          (case parseRFC3339 lastETHUpdateStr of
             None \<Rightarrow> True
           | Some lastETHUpdate \<Rightarrow>
               let r = GetRefreshInterval interval_fails d;
                   refreshInterval =
                     (if snd r \<noteq> None then defaultMinRefreshIntervalHrs else fst r)
               in time_Since now lastETHUpdate > interval_duration refreshInterval))"

text \<open>What the specification asks of the cooldown: the elapsed time exceeds so many hours.\<close>

definition spec_elapsed_exceeds :: "time \<Rightarrow> time \<Rightarrow> int \<Rightarrow> bool" where
  "spec_elapsed_exceeds now marker hours \<longleftrightarrow> now - marker > hours * 3600000000000"

subsection \<open>Sample configurations for the cooldown\<close>

text \<open>
  A stand-in for the library parser that knows the one marker used below:
  2023-11-14T22:13:20Z is 1700000000 seconds after the epoch.
\<close>

definition parse_marker :: "string \<Rightarrow> time option" where
  "parse_marker s = (if s = ''2023-11-14T22:13:20Z'' then Some 1700000000000000000 else None)"

definition db_hourly :: db where
  "db_hourly =
     \<lparr>transfers = [],
      config = [''last_eth_update'' \<mapsto> ''2023-11-14T22:13:20Z'',
                ''min_refresh_interval_hours'' \<mapsto> ''1''],
      source_addresses = []\<rparr>"

definition db_long_interval :: db where
  "db_long_interval =
     \<lparr>transfers = [],
      config = [''last_eth_update'' \<mapsto> ''2023-11-14T22:13:20Z'',
                ''min_refresh_interval_hours'' \<mapsto> ''2562048''],
      source_addresses = []\<rparr>"

section \<open>The scheduler\<close>

text \<open>A wall-clock reading: what \<^verbatim>\<open>Hour()\<close>, \<^verbatim>\<open>Minute()\<close> and \<^verbatim>\<open>Second()\<close> return.\<close>

record clock =
  clock_hour :: nat
  clock_minute :: nat
  clock_second :: nat

text \<open>
  \<^verbatim>\<open>time.Parse("15:04:05", s)\<close>: an hour of one or two digits, a colon, a minute of two
  digits, a colon, a second of two digits, and optionally a fraction (a period or comma and
  digits), which this layout accepts after the seconds; hour below 24, minute and second
  below 60. \<open>None\<close> stands for a non-nil error.
\<close>

definition getnum :: "string \<Rightarrow> bool \<Rightarrow> (nat \<times> string) option" where
  "getnum s fixed =
     (case s of
        [] \<Rightarrow> None
      | c1 # r1 \<Rightarrow>
          (case digit_value c1 of
             None \<Rightarrow> None
           | Some v1 \<Rightarrow>
               (case r1 of
                  [] \<Rightarrow> if fixed then None else Some (v1, r1)
                | c2 # r2 \<Rightarrow>
                    (case digit_value c2 of
                       None \<Rightarrow> if fixed then None else Some (v1, r1)
                     | Some v2 \<Rightarrow> Some (v1 * 10 + v2, r2)))))"

definition skip_colon :: "string \<Rightarrow> string option" where
  "skip_colon s = (case s of [] \<Rightarrow> None | c # r \<Rightarrow> if c = CHR '':'' then Some r else None)"

definition fraction_or_end :: "string \<Rightarrow> bool" where
  "fraction_or_end s =
     (case s of
        [] \<Rightarrow> True
      | c # ds \<Rightarrow> (c = CHR ''.'' \<or> c = CHR '','') \<and> ds \<noteq> [] \<and> (\<forall>x \<in> set ds. digit_value x \<noteq> None))"

definition time_Parse_clock :: "string \<Rightarrow> clock option" where
  "time_Parse_clock s =
     (case getnum s False of
        None \<Rightarrow> None
      | Some (h, r1) \<Rightarrow>
          (case skip_colon r1 of
             None \<Rightarrow> None
           | Some r2 \<Rightarrow>
               (case getnum r2 True of
                  None \<Rightarrow> None
                | Some (m, r3) \<Rightarrow>
                    (case skip_colon r3 of
                       None \<Rightarrow> None
                     | Some r4 \<Rightarrow>
                         (case getnum r4 True of
                            None \<Rightarrow> None
                          | Some (sec, r5) \<Rightarrow>
                              if \<not> fraction_or_end r5 then None
                              else if 24 \<le> h \<or> 60 \<le> m \<or> 60 \<le> sec then None
                              else Some \<lparr>clock_hour = h, clock_minute = m,
                                         clock_second = sec\<rparr>)))))"

definition GetDailyRefreshTime :: "bool \<Rightarrow> db \<Rightarrow> string \<times> error option" where
  "GetDailyRefreshTime query_fails d =
     (case GetConfig query_fails d configKeyDailyRefreshTime of
        Inl err \<Rightarrow> (''00:00:00'', Some (Wrap ''getting daily refresh time'' err))
      | Inr v \<Rightarrow> (v, None))"

text \<open>
  \<^verbatim>\<open>time.Date(0, 1, 1, h, m, 0, 0, time.UTC)\<close> as seconds after the midnight that starts
  that day; \<^verbatim>\<open>Equal\<close> compares these instants.
\<close>

definition time_Date_hm :: "nat \<Rightarrow> nat \<Rightarrow> nat" where
  "time_Date_hm h m = h * 3600 + m * 60"

text \<open>
  \<^verbatim>\<open>checkAndRunDailyUpdate\<close> either calls \<^verbatim>\<open>runDailyUpdate\<close> or returns without doing
  anything; the result says which.
\<close>

datatype scheduler_action = RunDailyUpdate | NoAction

definition checkAndRunDailyUpdate :: "bool \<Rightarrow> db \<Rightarrow> clock \<Rightarrow> scheduler_action" where
  "checkAndRunDailyUpdate query_fails d now =
     (let r = GetDailyRefreshTime query_fails d
      in if snd r \<noteq> None then NoAction
         else case time_Parse_clock (fst r) of
                None \<Rightarrow> NoAction
              | Some refreshTime \<Rightarrow>
                  let currentTime = time_Date_hm (clock_hour now) (clock_minute now);
                      scheduledTime =
                        time_Date_hm (clock_hour refreshTime) (clock_minute refreshTime)
                  in if currentTime = scheduledTime then RunDailyUpdate else NoAction)"

subsection \<open>A sample schedule: daily refresh at 09:00:00\<close>

definition db_nine :: db where
  "db_nine =
     \<lparr>transfers = [], config = [''daily_refresh_time'' \<mapsto> ''09:00:00''],
      source_addresses = []\<rparr>"

definition at_clock :: "nat \<Rightarrow> nat \<Rightarrow> nat \<Rightarrow> clock" where
  "at_clock h m s = \<lparr>clock_hour = h, clock_minute = m, clock_second = s\<rparr>"

section \<open>Amount normalisation\<close>

text \<open>
  \<^verbatim>\<open>normalizeAmount\<close> computes with \<^verbatim>\<open>math/big.Float\<close>. A finite non-negative
  \<^verbatim>\<open>Float\<close> is a mantissa of at most \<open>prec\<close> bits times a power of two; a \<^verbatim>\<open>Float\<close>
  created with \<^verbatim>\<open>new(big.Float)\<close> has precision 0, which \<^verbatim>\<open>SetString\<close> replaces by 64,
  \<^verbatim>\<open>SetInt\<close> by the larger of 64 and the bit length of the integer, and \<^verbatim>\<open>Quo\<close> by the
  larger of the precisions of its operands. Every operation rounds its exact result to the
  precision of the receiver, to nearest with ties to the even mantissa.
\<close>

record Float =
  fprec :: nat
  fmant :: nat
  fexp :: int

fun bitlen :: "nat \<Rightarrow> nat" where
  "bitlen n = (if n = 0 then 0 else Suc (bitlen (n div 2)))"

declare bitlen.simps [simp del]

text \<open>
  Rounding to \<open>p\<close> bits of the number \<open>n + f\<close>, where \<open>n\<close> is a natural number and
  \<open>sticky\<close> says whether the fraction \<open>f\<close> below it, \<open>0 \<le> f < 1\<close>, is non-zero. The result
  is a mantissa and the number of low bits that were dropped.
\<close>

definition round_bits :: "nat \<Rightarrow> nat \<Rightarrow> bool \<Rightarrow> nat \<times> nat" where
  "round_bits p n sticky =
     (let l = bitlen n
      in if l \<le> p then (n, 0)
         else
           let s = l - p;
               q = n div 2 ^ s;
               r = n mod 2 ^ s;
               half = 2 ^ (s - 1);
               up = r > half \<or> (r = half \<and> sticky) \<or> (r = half \<and> \<not> sticky \<and> odd q)
           in (if up then q + 1 else q, s))"

text \<open>
  \<^verbatim>\<open>SetString\<close> on the strings the claim is about: an unsigned decimal integer literal, the
  form in which the database renders a sum of \<^verbatim>\<open>NUMERIC(78, 0)\<close> amounts. The library
  accepts more (signs, fractions, exponents, other bases, \<^verbatim>\<open>Inf\<close>), which is not modelled:
  here every other string is a failure.
\<close>

definition Float_SetString :: "string \<Rightarrow> Float option" where
  "Float_SetString s =
     (case ParseUint s of
        None \<Rightarrow> None
      | Some n \<Rightarrow>
          let r = round_bits 64 n False
          in Some \<lparr>fprec = 64, fmant = fst r, fexp = int (snd r)\<rparr>)"

definition Float_SetInt :: "nat \<Rightarrow> Float" where
  "Float_SetInt n = \<lparr>fprec = max (bitlen n) 64, fmant = n, fexp = 0\<rparr>"

text \<open>
  \<^verbatim>\<open>Quo\<close> for a non-zero divisor: the quotient of the mantissas is developed to two bits
  more than the precision, with the remainder as sticky bit, and rounded.
\<close>

definition Float_Quo :: "Float \<Rightarrow> Float \<Rightarrow> Float" where
  "Float_Quo x y =
     (let p = max (fprec x) (fprec y)
      in if fmant x = 0 then \<lparr>fprec = p, fmant = 0, fexp = 0\<rparr>
         else
           let t = (p + 2 + bitlen (fmant y)) - bitlen (fmant x);
               n = fmant x * 2 ^ t;
               q = n div fmant y;
               rest = n mod fmant y;
               r = round_bits p q (rest \<noteq> 0)
           in \<lparr>fprec = p, fmant = fst r,
               fexp = int (snd r) - int t + fexp x - fexp y\<rparr>)"

text \<open>Decimal digits of a natural number, and padding with zeros on the left.\<close>

fun show_nat :: "nat \<Rightarrow> string" where
  "show_nat n =
     (if n < 10 then [''0123456789'' ! n]
      else show_nat (n div 10) @ [''0123456789'' ! (n mod 10)])"

declare show_nat.simps [simp del]

function pad_left :: "nat \<Rightarrow> string \<Rightarrow> string" where
  "pad_left w s = (if length s < w then pad_left w (CHR ''0'' # s) else s)"
  by pat_completeness auto
termination
  by (relation "measure (\<lambda>(w, s). w - length s)") auto

declare pad_left.simps [simp del]

definition fixed_text :: "nat \<Rightarrow> nat \<Rightarrow> string" where
  "fixed_text scaled digits =
     show_nat (scaled div 10 ^ digits) @
     (if digits = 0 then [] else CHR ''.'' # pad_left digits (show_nat (scaled mod 10 ^ digits)))"

text \<open>
  \<^verbatim>\<open>Text('f', digits)\<close>: the exact decimal expansion of the value, rounded to \<open>digits\<close>
  places after the point (ties to even) and printed with exactly that many places.
\<close>

definition Float_Text_f :: "Float \<Rightarrow> nat \<Rightarrow> string" where
  "Float_Text_f x digits =
     (let scaled =
            (if fexp x \<ge> 0 then fmant x * 2 ^ nat (fexp x) * 10 ^ digits
             else
               let num = fmant x * 10 ^ digits;
                   den = 2 ^ nat (- fexp x);
                   q = num div den;
                   r = num mod den
               in if 2 * r > den \<or> (2 * r = den \<and> odd q) then q + 1 else q)
      in fixed_text scaled digits)"

text \<open>
  \<^verbatim>\<open>normalizeAmount\<close>, for a number of decimals that is not negative (the claim is about
  0 to 30).
\<close>

definition normalizeAmount :: "string \<Rightarrow> nat \<Rightarrow> string" where
  "normalizeAmount amount decimals =
     (case Float_SetString amount of
        None \<Rightarrow> ''0''
      | Some bigAmount \<Rightarrow>
          let divisor = Float_SetInt (10 ^ decimals);
              normalizedAmount = Float_Quo bigAmount divisor
          in Float_Text_f normalizedAmount decimals)"

text \<open>What the specification asks for: the raw amount divided by \<open>10 ^ decimals\<close>, exactly.\<close>

definition exact_amount_text :: "nat \<Rightarrow> nat \<Rightarrow> string" where
  "exact_amount_text raw decimals = fixed_text raw decimals"

section \<open>Batch persistence\<close>

lemma ToLower_example: "ToLower ''0xAbCdEF09zZ'' = ''0xabcdef09zz''"
  by (simp add: ToLower_def toLowerChar_def)

lemma exec_loop_ok:
  "(\<forall>j<length ts. \<not> fails (i + j)) \<Longrightarrow>
   exec_loop fails i work ts = Inr (foldl insert_on_conflict_do_nothing work (map normalize_addresses ts))"
proof (induction ts arbitrary: i work)
  case Nil
  then show ?case by simp
next
  case (Cons t ts)
  have "\<not> fails i" using Cons.prems by (metis add.right_neutral length_greater_0_conv list.simps(3))
  moreover have "\<forall>j<length ts. \<not> fails (Suc i + j)" using Cons.prems by fastforce
  ultimately show ?case using Cons.IH by (simp add: Let_def)
qed

lemma exec_loop_fail:
  "j < length ts \<Longrightarrow> fails (i + j) \<Longrightarrow> \<exists>e. exec_loop fails i work ts = Inl e"
proof (induction ts arbitrary: i work j)
  case Nil
  then show ?case by simp
next
  case (Cons t ts)
  show ?case
  proof (cases "fails i")
    case True
    then show ?thesis by (simp add: Let_def)
  next
    case False
    then obtain j' where "j = Suc j'" using Cons.prems by (cases j) auto
    then have "j' < length ts" "fails (Suc i + j')" using Cons.prems by auto
    from Cons.IH[OF this] show ?thesis using False by (simp add: Let_def)
  qed
qed

lemma ins_distinct:
  "unique_constraint rows \<Longrightarrow> unique_constraint (insert_on_conflict_do_nothing rows r)"
  by (auto simp: unique_constraint_def insert_on_conflict_do_nothing_def)

lemma ins_keys:
  "unique_key ` set (insert_on_conflict_do_nothing rows r) = insert (unique_key r) (unique_key ` set rows)"
  by (auto simp: insert_on_conflict_do_nothing_def)

lemma foldl_ins_distinct:
  "unique_constraint rows \<Longrightarrow> unique_constraint (foldl insert_on_conflict_do_nothing rows rs)"
  by (induction rs arbitrary: rows) (auto simp: ins_distinct)

lemma foldl_ins_keys:
  "unique_key ` set (foldl insert_on_conflict_do_nothing rows rs) = unique_key ` set rows \<union> unique_key ` set rs"
  by (induction rs arbitrary: rows) (auto simp: ins_keys)

lemma foldl_ins_present:
  "unique_key ` set rs \<subseteq> unique_key ` set rows \<Longrightarrow> foldl insert_on_conflict_do_nothing rows rs = rows"
  by (induction rs arbitrary: rows) (auto simp: insert_on_conflict_do_nothing_def)

lemma distinct_count1:
  "distinct (map f xs) \<Longrightarrow> k \<in> f ` set xs \<Longrightarrow> length (filter (\<lambda>r. f r = k) xs) = 1"
proof (induction xs)
  case Nil
  then show ?case by simp
next
  case (Cons x xs)
  show ?case
  proof (cases "f x = k")
    case True
    then have "k \<notin> f ` set xs" using Cons.prems by auto
    then have "filter (\<lambda>r. f r = k) xs = []" by (auto simp: filter_empty_conv)
    then show ?thesis using True by simp
  next
    case False
    then show ?thesis using Cons by auto
  qed
qed

lemma toLowerChar_idem: "toLowerChar (toLowerChar c) = toLowerChar c"
  by (simp add: toLowerChar_def)

lemma AddTransfersBatch_ok:
  "ts = [] \<or> fault_free f (length ts) \<Longrightarrow>
   AddTransfersBatch f d ts = (None, d\<lparr>transfers := insert_all (transfers d) ts\<rparr>)"
  by (auto simp: AddTransfersBatch_def fault_free_def insert_all_def exec_loop_ok
        BeginTxx_def Commit_def Rollback_def Let_def)

lemma AddTransfersBatch_err:
  assumes "ts \<noteq> []" "\<not> fault_free f (length ts)"
  shows "\<exists>e. AddTransfersBatch f d ts = (Some e, d)"
proof (cases "\<exists>j<length ts. exec_fails f j")
  case True
  then obtain j where "j < length ts" "exec_fails f (0 + j)" by auto
  from exec_loop_fail[of j ts "exec_fails f" 0 "transfers d", OF this] obtain e where "exec_loop (exec_fails f) 0 (transfers d) ts = Inl e" by blast
  then show ?thesis using assms
    by (simp add: AddTransfersBatch_def BeginTxx_def Rollback_def Let_def)
next
  case False
  then have "exec_loop (exec_fails f) 0 (transfers d) ts = Inr (insert_all (transfers d) ts)"
    by (simp add: exec_loop_ok insert_all_def)
  moreover have "begin_fails f \<or> prepare_fails f \<or> commit_fails f"
    using assms False by (auto simp: fault_free_def)
  ultimately show ?thesis using assms
    by (auto simp: AddTransfersBatch_def BeginTxx_def Rollback_def Let_def)
qed

text \<open>
  Claim C9. One call of \<^verbatim>\<open>AddTransfersBatch\<close> is all-or-nothing: on an empty batch, or
  when the driver reports no failure, the call returns no error and the table holds every
  record of the batch (each inserted, or skipped as a duplicate); when any of begin,
  prepare, one of the inserts or commit fails, the call returns an error and the database
  is exactly what it was before the call.
\<close>

theorem AddTransfersBatch_all_or_nothing:
  "(ts = [] \<or> fault_free f (length ts) \<longrightarrow>
      AddTransfersBatch f d ts = (None, d\<lparr>transfers := insert_all (transfers d) ts\<rparr>)) \<and>
   (ts \<noteq> [] \<and> \<not> fault_free f (length ts) \<longrightarrow>
      (\<exists>e. AddTransfersBatch f d ts = (Some e, d)))"
  using AddTransfersBatch_ok AddTransfersBatch_err by blast

lemma fault_free_no_faults: "fault_free no_faults n"
  by (simp add: fault_free_def no_faults_def)

lemma second_exec_fails_not_free: "\<not> fault_free second_exec_fails (Suc (Suc n))"
  by (auto simp: fault_free_def second_exec_fails_def)

text \<open>
  Both branches at a concrete batch of two records: without faults both rows are stored;
  when the second insert fails the first one is not visible either.
\<close>

theorem AddTransfersBatch_all_or_nothing_witness:
  "fault_free no_faults (length [row1, row2]) \<and>
   AddTransfersBatch no_faults db0 [row1, row2] =
     (None, db0\<lparr>transfers := [normalize_addresses row1, normalize_addresses row2]\<rparr>) \<and>
   [row1, row2] \<noteq> [] \<and> \<not> fault_free second_exec_fails (length [row1, row2]) \<and>
   (\<exists>e. AddTransfersBatch second_exec_fails db0 [row1, row2] = (Some e, db0))"
proof -
  have a: "fault_free no_faults (length [row1, row2])" by (rule fault_free_no_faults)
  have b: "\<not> fault_free second_exec_fails (length [row1, row2])" using second_exec_fails_not_free by simp
  have c: "insert_all (transfers db0) [row1, row2] = [normalize_addresses row1, normalize_addresses row2]"
    by (simp add: insert_all_def insert_on_conflict_do_nothing_def db0_def unique_key_def
          normalize_addresses_def row1_def row2_def)
  show ?thesis
    using AddTransfersBatch_all_or_nothing[of "[row1, row2]" no_faults db0]
          AddTransfersBatch_all_or_nothing[of "[row1, row2]" second_exec_fails db0] a b c
    by simp
qed

text \<open>
  Claim C1. Batch persistence is idempotent. Starting from a table that satisfies its
  uniqueness constraint, a batch persisted without driver faults returns no error and
  leaves exactly one row for every key (hash, asset, from, to) of the table and of the
  normalised batch. Persisting afterwards the same batch, or any batch whose normalised
  keys are all stored already, returns no error and changes nothing.
\<close>

theorem AddTransfersBatch_idempotent:
  assumes uc: "unique_constraint (transfers d)"
      and f1: "fault_free f1 (length ts)"
      and d1: "d1 = snd (AddTransfersBatch f1 d ts)"
  shows "fst (AddTransfersBatch f1 d ts) = None \<and>
         (\<forall>k \<in> unique_key ` set (transfers d) \<union> unique_key ` normalize_addresses ` set ts.
             rows_with_key (transfers d1) k = 1) \<and>
         (\<forall>f2 ts2. fault_free f2 (length ts2) \<and>
             (\<forall>t \<in> set ts2. unique_key (normalize_addresses t) \<in> unique_key ` set (transfers d1)) \<longrightarrow>
             AddTransfersBatch f2 d1 ts2 = (None, d1)) \<and>
         (\<forall>f2. fault_free f2 (length ts) \<longrightarrow> AddTransfersBatch f2 d1 ts = (None, d1))"
proof -
  have r: "AddTransfersBatch f1 d ts = (None, d\<lparr>transfers := insert_all (transfers d) ts\<rparr>)"
    using f1 by (simp add: AddTransfersBatch_ok)
  then have t1: "transfers d1 = insert_all (transfers d) ts" using d1 by simp
  have keys: "unique_key ` set (transfers d1) =
              unique_key ` set (transfers d) \<union> unique_key ` normalize_addresses ` set ts"
    by (simp add: t1 insert_all_def foldl_ins_keys)
  have uc1: "unique_constraint (transfers d1)"
    using uc by (simp add: t1 insert_all_def foldl_ins_distinct)
  have one: "\<forall>k \<in> unique_key ` set (transfers d) \<union> unique_key ` normalize_addresses ` set ts.
               rows_with_key (transfers d1) k = 1"
    using uc1 keys distinct_count1[of unique_key "transfers d1"]
    by (simp add: rows_with_key_def unique_constraint_def)
  have again: "AddTransfersBatch f2 d1 ts2 = (None, d1)"
    if "fault_free f2 (length ts2)"
       "\<forall>t \<in> set ts2. unique_key (normalize_addresses t) \<in> unique_key ` set (transfers d1)"
    for f2 ts2
  proof -
    have "unique_key ` set (map normalize_addresses ts2) \<subseteq> unique_key ` set (transfers d1)"
      using that(2) by auto
    then have "insert_all (transfers d1) ts2 = transfers d1"
      unfolding insert_all_def by (rule foldl_ins_present)
    then show ?thesis using that(1) by (simp add: AddTransfersBatch_ok)
  qed
  have same: "AddTransfersBatch f2 d1 ts = (None, d1)" if "fault_free f2 (length ts)" for f2
    using again[OF that] keys by blast
  show ?thesis using r one again same by simp
qed

text \<open>
  A batch that names the same transfer twice, persisted twice into an empty table:
  two rows, one per key.
\<close>

theorem AddTransfersBatch_idempotent_witness:
  "unique_constraint (transfers db0) \<and> fault_free no_faults (length [row1, row2, row1]) \<and>
   AddTransfersBatch no_faults db0 [row1, row2, row1] =
      (None, db0\<lparr>transfers := [normalize_addresses row1, normalize_addresses row2]\<rparr>) \<and>
   AddTransfersBatch no_faults (db0\<lparr>transfers := [normalize_addresses row1, normalize_addresses row2]\<rparr>)
      [row1, row2, row1] =
      (None, db0\<lparr>transfers := [normalize_addresses row1, normalize_addresses row2]\<rparr>) \<and>
   rows_with_key [normalize_addresses row1, normalize_addresses row2]
      (unique_key (normalize_addresses row1)) = 1"
proof -
  have u: "unique_constraint (transfers db0)" by (simp add: unique_constraint_def db0_def)
  have f: "fault_free no_faults (length [row1, row2, row1])" by (rule fault_free_no_faults)
  have c: "insert_all (transfers db0) [row1, row2, row1] = [normalize_addresses row1, normalize_addresses row2]"
    by (simp add: insert_all_def insert_on_conflict_do_nothing_def db0_def unique_key_def
          normalize_addresses_def row1_def row2_def)
  have r: "AddTransfersBatch no_faults db0 [row1, row2, row1] =
      (None, db0\<lparr>transfers := [normalize_addresses row1, normalize_addresses row2]\<rparr>)"
    using f c by (simp add: AddTransfersBatch_ok)
  then have s: "db0\<lparr>transfers := [normalize_addresses row1, normalize_addresses row2]\<rparr> =
             snd (AddTransfersBatch no_faults db0 [row1, row2, row1])" by simp
  show ?thesis
    using AddTransfersBatch_idempotent[OF u f s] u f r by simp
qed

section \<open>Cursor resolution\<close>

lemma fold_max_Max: "fold max xs (x::int) = Max (insert x (set xs))"
proof (induction xs arbitrary: x)
  case Nil
  then show ?case by simp
next
  case (Cons y ys)
  have "Max (insert (max y x) (set ys)) = Max (insert x (insert y (set ys)))"
  proof (cases "set ys = {}")
    case True
    then show ?thesis by (simp add: max.commute)
  next
    case False
    then show ?thesis by (simp add: max.commute max.left_commute max.assoc)
  qed
  then show ?case using Cons.IH by simp
qed

lemma fold_min_Min: "fold min xs (x::int) = Min (insert x (set xs))"
proof (induction xs arbitrary: x)
  case Nil
  then show ?case by simp
next
  case (Cons y ys)
  have "Min (insert (min y x) (set ys)) = Min (insert x (insert y (set ys)))"
  proof (cases "set ys = {}")
    case True
    then show ?thesis by (simp add: min.commute)
  next
    case False
    then show ?thesis by (simp add: min.commute min.left_commute min.assoc)
  qed
  then show ?case using Cons.IH by simp
qed

lemma COALESCE_MAX: "COALESCE (sql_MAX xs) 0 = (if set xs = {} then 0 else Max (set xs))"
  by (cases xs) (simp_all add: COALESCE_def fold_max_Max)

lemma COALESCE_MIN: "COALESCE (sql_MIN xs) 0 = (if set xs = {} then 0 else Min (set xs))"
  by (cases xs) (simp_all add: COALESCE_def fold_min_Min)

lemma native_blocks_filter:
  "set (map BlockNumber (filter (\<lambda>r. involves a r \<and>
        TokenAddress r = ''0x0000000000000000000000000000000000000000'') rows)) = native_blocks rows a"
  unfolding native_blocks_def native_sentinel_def by auto

lemma asset_groups:
  "set (remdups (map TokenAddress (filter (\<lambda>r. involves a r \<and>
        TokenAddress r \<noteq> ''0x0000000000000000000000000000000000000000'') rows))) = assets_seen rows a"
  unfolding assets_seen_def native_sentinel_def by auto

lemma asset_group_blocks:
  assumes "g \<in> assets_seen rows a"
  shows "set (map BlockNumber (filter (\<lambda>r. TokenAddress r = g) (filter (\<lambda>r. involves a r \<and>
        TokenAddress r \<noteq> ''0x0000000000000000000000000000000000000000'') rows))) = asset_blocks rows a g"
  using assms unfolding asset_blocks_def assets_seen_def native_sentinel_def by auto

lemma asset_blocks_nonempty: "g \<in> assets_seen rows a \<Longrightarrow> asset_blocks rows a g \<noteq> {}"
  unfolding asset_blocks_def assets_seen_def by auto

lemma token_blocks_snd:
  "set (map snd (token_blocks rows a)) = (\<lambda>g. Max (asset_blocks rows a g)) ` assets_seen rows a"
proof -
  define sel where "sel = filter (\<lambda>r. involves a r \<and>
                 TokenAddress r \<noteq> ''0x0000000000000000000000000000000000000000'') rows"
  define grp where "grp = (\<lambda>g. COALESCE (sql_MAX (map BlockNumber (filter (\<lambda>r. TokenAddress r = g) sel))) 0)"
  have groups: "set (remdups (map TokenAddress sel)) = assets_seen rows a"
    unfolding sel_def by (rule asset_groups)
  have g: "grp g = Max (asset_blocks rows a g)" if "g \<in> assets_seen rows a" for g
  proof -
    have "set (map BlockNumber (filter (\<lambda>r. TokenAddress r = g) sel)) = asset_blocks rows a g"
      unfolding sel_def using that by (rule asset_group_blocks)
    moreover have "asset_blocks rows a g \<noteq> {}" using that by (rule asset_blocks_nonempty)
    ultimately show ?thesis unfolding grp_def COALESCE_MAX by simp
  qed
  have "token_blocks rows a = map (\<lambda>g. (g, grp g)) (remdups (map TokenAddress sel))"
    unfolding token_blocks_def Let_def sel_def grp_def ..
  then have "map snd (token_blocks rows a) = map grp (remdups (map TokenAddress sel))"
    by (simp add: comp_def)
  then have "set (map snd (token_blocks rows a)) = grp ` assets_seen rows a"
    using groups by (metis set_map)
  also have "\<dots> = (\<lambda>g. Max (asset_blocks rows a g)) ` assets_seen rows a"
    using g by (intro image_cong refl)
  finally show ?thesis .
qed

lemma native_cursor_eq:
  "COALESCE (sql_MAX (map BlockNumber (filter (\<lambda>r. involves a r \<and>
              TokenAddress r = ''0x0000000000000000000000000000000000000000'') rows))) 0
           = spec_native_cursor rows a"
  unfolding COALESCE_MAX native_blocks_filter spec_native_cursor_def ..

lemma token_cursor_eq:
  "COALESCE (sql_MIN (map snd (token_blocks rows a))) 0 = spec_token_cursor rows a"
  unfolding COALESCE_MIN token_blocks_snd spec_token_cursor_def by simp

lemma ToLower_sentinel: "ToLower native_sentinel = ''0x0000000000000000000000000000000000000000''"
  by (simp add: native_sentinel_def ToLower_def toLowerChar_def)

text \<open>
  Claim C2. When the query itself succeeds, the native cursor of an address is the maximum
  block number among the stored rows that have the (lower-cased) address as sender or
  receiver and the zero address as asset, and 0 when there is no such row; the
  aggregate-token cursor is the minimum, over the non-native assets seen for the address,
  of each asset's maximum block number, and 0 when no non-native row exists.
\<close>

theorem cursor_resolver_correct:
  "GetLastProcessedBlock False d address native_sentinel =
     (spec_native_cursor (transfers d) (ToLower address), None) \<and>
   GetLastProcessedBlock False d address '''' =
     (spec_native_cursor (transfers d) (ToLower address), None) \<and>
   GetLastProcessedBlockForERC20 False d address =
     (spec_token_cursor (transfers d) (ToLower address), None)"
proof -
  have 1: "GetLastProcessedBlock False d address native_sentinel =
     (spec_native_cursor (transfers d) (ToLower address), None)"
    unfolding GetLastProcessedBlock_def Let_def ToLower_sentinel by (simp only: native_cursor_eq if_True if_False simp_thms)
  have e: "ToLower '''' = ''''" by (simp add: ToLower_def)
  have 2: "GetLastProcessedBlock False d address '''' =
     (spec_native_cursor (transfers d) (ToLower address), None)"
    unfolding GetLastProcessedBlock_def Let_def e by (simp only: native_cursor_eq if_True if_False simp_thms)
  have 3: "GetLastProcessedBlockForERC20 False d address =
     (spec_token_cursor (transfers d) (ToLower address), None)"
    unfolding GetLastProcessedBlockForERC20_def Let_def by (simp only: token_cursor_eq if_True if_False simp_thms)
  show ?thesis using 1 2 3 by blast
qed

text \<open>
  On the sample ledger, address \<open>0xaa\<close> has native rows at blocks 70 and 30, token A at
  blocks 90 and 100 and token B at block 50 (token B's block 900 belongs to other
  addresses): the native cursor is 70 and the aggregate-token cursor is 50. An address
  without rows resolves to 0 in both classes.
\<close>

lemma cursor_example:
  "GetLastProcessedBlock False ledger_AB ''0xAA'' native_sentinel = (70, None) \<and>
   GetLastProcessedBlockForERC20 False ledger_AB ''0xAA'' = (50, None) \<and>
   GetLastProcessedBlock False ledger_AB ''0x99'' native_sentinel = (0, None) \<and>
   GetLastProcessedBlockForERC20 False ledger_AB ''0x99'' = (0, None)"
  by code_simp

section \<open>Fetching: pagination and the time window\<close>

lemma ParseInt_examples:
  "ParseInt ''1700000000'' = Some 1700000000"
  "ParseInt ''-12'' = Some (-12)"
  "ParseInt ''+12'' = Some 12"
  "ParseInt ''-'' = None"
  "ParseInt [] = None"
  "ParseInt ''12a'' = None"
  "ParseInt ''9223372036854775807'' = Some 9223372036854775807"
  "ParseInt ''9223372036854775808'' = None"
  "ParseInt ''-9223372036854775808'' = Some (-9223372036854775808)"
  by (simp_all add: ParseInt_def ParseUint_def digit_value_def)

lemma filter_page_eq:
  "filter_page stamp st en acc txs = acc @ filter (keeps stamp st en) txs"
  by (induction txs arbitrary: acc) (auto simp: keeps_def in_window_def split: option.splits)

lemma fetch_loop_returns:
  assumes "page \<le> k" "\<forall>p. page \<le> p \<and> p < k \<longrightarrow> full_page doRequest p" "short_page doRequest k"
  shows "fetch_loop stamp doRequest st en page acc =
         Some (Inr (acc @ concat (map (\<lambda>p. filter (keeps stamp st en) (page_of doRequest p)) [page..<Suc k])))"
  using assms
proof (induction "k - page" arbitrary: page acc)
  case 0
  then have pk: "page = k" by simp
  from 0 have "short_page doRequest k" by simp
  then obtain txs where t: "doRequest k = Inr txs" "length txs < defaultOffset"
    by (cases "doRequest k") (auto simp: short_page_def)
  have pg: "page_of doRequest k = txs" by (simp add: page_of_def t)
  have "fetch_loop stamp doRequest st en k acc = Some (Inr (acc @ filter (keeps stamp st en) txs))"
    using t by (subst fetch_loop.simps) (simp add: Let_def filter_page_eq)
  then show ?case by (simp add: pk pg)
next
  case (Suc n)
  then have lt: "page < k" by simp
  with Suc.prems have "full_page doRequest page" by simp
  then obtain txs where t: "doRequest page = Inr txs" "defaultOffset \<le> length txs"
    by (cases "doRequest page") (auto simp: full_page_def)
  have ih: "fetch_loop stamp doRequest st en (page + 1) acc' =
         Some (Inr (acc' @ concat (map (\<lambda>p. filter (keeps stamp st en) (page_of doRequest p)) [page + 1..<Suc k])))"
    for acc'
    using Suc.hyps(1)[of "page + 1" acc'] Suc.hyps(2) Suc.prems lt by auto
  have up: "[page..<Suc k] = page # [page + 1..<Suc k]"
    using lt by (simp add: upt_conv_Cons)
  have step: "fetch_loop stamp doRequest st en page acc =
              fetch_loop stamp doRequest st en (page + 1) (acc @ filter (keeps stamp st en) txs)"
    using t by (subst fetch_loop.simps) (simp add: Let_def filter_page_eq)
  have pg: "page_of doRequest page = txs" by (simp add: page_of_def t)
  show ?case unfolding step ih up by (simp add: pg)
qed

lemma fetch_loop_error:
  assumes "page \<le> k" "\<forall>p. page \<le> p \<and> p < k \<longrightarrow> full_page doRequest p" "doRequest k = Inl e"
  shows "fetch_loop stamp doRequest st en page acc = Some (Inl e)"
  using assms
proof (induction "k - page" arbitrary: page acc)
  case 0
  then have pk: "page = k" by simp
  show ?case
    by (subst fetch_loop.simps) (simp add: pk 0)
next
  case (Suc n)
  then have lt: "page < k" by simp
  with Suc.prems have "full_page doRequest page" by simp
  then obtain txs where t: "doRequest page = Inr txs" "defaultOffset \<le> length txs"
    by (cases "doRequest page") (auto simp: full_page_def)
  have ih: "fetch_loop stamp doRequest st en (page + 1) acc' = Some (Inl e)" for acc'
    using Suc.hyps(1)[of "page + 1" acc'] Suc.hyps(2) Suc.prems lt by auto
  have step: "fetch_loop stamp doRequest st en page acc =
              fetch_loop stamp doRequest st en (page + 1) (acc @ filter (keeps stamp st en) txs)"
    using t by (subst fetch_loop.simps) (simp add: Let_def filter_page_eq)
  show ?case unfolding step ih ..
qed

lemma fetch_window:
  assumes "ends_at doRequest k"
  shows "\<exists>res. fetch_loop stamp doRequest st en defaultPage [] = Some (Inr res) \<and>
           res = concat (map (\<lambda>p. filter (keeps stamp st en) (page_of doRequest p)) [1..<Suc k]) \<and>
           (\<forall>p tx ts. 1 \<le> p \<and> p \<le> k \<and> tx \<in> set (page_of doRequest p) \<and>
                ParseInt (stamp tx) = Some ts \<longrightarrow>
                (tx \<in> set res \<longleftrightarrow> st \<le> time_Unix ts \<and> time_Unix ts \<le> en)) \<and>
           (\<forall>tx \<in> set res. \<exists>p ts. 1 \<le> p \<and> p \<le> k \<and> tx \<in> set (page_of doRequest p) \<and>
                ParseInt (stamp tx) = Some ts \<and> st \<le> time_Unix ts \<and> time_Unix ts \<le> en)"
proof -
  let ?res = "concat (map (\<lambda>p. filter (keeps stamp st en) (page_of doRequest p)) [1..<Suc k])"
  from assms have k: "1 \<le> k" "\<forall>p. 1 \<le> p \<and> p < k \<longrightarrow> full_page doRequest p" "short_page doRequest k"
    by (simp_all add: ends_at_def)
  have r: "fetch_loop stamp doRequest st en defaultPage [] = Some (Inr ?res)"
    unfolding defaultPage_def using fetch_loop_returns[OF k(1) k(2) k(3), of stamp st en "[]"] by simp
  have mem: "tx \<in> set ?res \<longleftrightarrow> (\<exists>p. 1 \<le> p \<and> p \<le> k \<and> tx \<in> set (page_of doRequest p) \<and> keeps stamp st en tx)"
    for tx by (simp del: upt_Suc) (auto simp: less_Suc_eq_le)
  have a: "tx \<in> set ?res \<longleftrightarrow> st \<le> time_Unix ts \<and> time_Unix ts \<le> en"
    if "1 \<le> p" "p \<le> k" "tx \<in> set (page_of doRequest p)" "ParseInt (stamp tx) = Some ts" for p tx ts
  proof -
    have "keeps stamp st en tx \<longleftrightarrow> st \<le> time_Unix ts \<and> time_Unix ts \<le> en"
      using that(4) by (simp add: keeps_def)
    moreover have "tx \<in> set ?res \<longleftrightarrow> keeps stamp st en tx"
      unfolding mem using that(1,2,3) by blast
    ultimately show ?thesis by simp
  qed
  have b: "\<exists>p ts. 1 \<le> p \<and> p \<le> k \<and> tx \<in> set (page_of doRequest p) \<and>
                ParseInt (stamp tx) = Some ts \<and> st \<le> time_Unix ts \<and> time_Unix ts \<le> en"
    if "tx \<in> set ?res" for tx
  proof -
    from that obtain p where p: "1 \<le> p" "p \<le> k" "tx \<in> set (page_of doRequest p)" "keeps stamp st en tx"
      unfolding mem by blast
    then obtain ts where "ParseInt (stamp tx) = Some ts" "st \<le> time_Unix ts \<and> time_Unix ts \<le> en"
      by (cases "ParseInt (stamp tx)") (auto simp: keeps_def)
    with p show ?thesis by blast
  qed
  show ?thesis using r a b by blast
qed

lemma eth_page_ends: "ends_at eth_page 1"
  by (simp add: ends_at_def short_page_def eth_page_def defaultOffset_def)

lemma erc_page_ends: "ends_at erc_page 1"
  by (simp add: ends_at_def short_page_def erc_page_def defaultOffset_def)

lemma keeps_eth_page:
  "filter (keeps eth_TimeStamp T0 T2) (page_of eth_page 1) =
     [mk_eth ''0xe2'' ''11'' ''1700000000'' ''0xaa'' ''0xbb'' ''0'',
      mk_eth ''0xe3'' ''12'' ''1700001800'' ''0xaa'' ''0xbb'' ''0'',
      mk_eth ''0xe5'' ''14'' ''1700003600'' ''0xaa'' ''0xbb'' ''0'']"
  by (simp add: page_of_def eth_page_def keeps_def mk_eth_def T0_def T2_def time_Unix_def
        ParseInt_def ParseUint_def digit_value_def)

lemma keeps_erc_page:
  "filter (keeps erc_TimeStamp T0 T2) (page_of erc_page 1) =
     [mk_erc ''0xf2'' ''11'' ''1700000000'' ''0xaa'' ''0xbb'' ''0xt1'',
      mk_erc ''0xf3'' ''13'' ''1700003600'' ''0xaa'' ''0xbb'' ''0xt2'']"
  by (simp add: page_of_def erc_page_def keeps_def mk_erc_def T0_def T2_def time_Unix_def
        ParseInt_def ParseUint_def digit_value_def)

text \<open>
  Claim C7. The window filter is inclusive on both bounds and applied to every page.
  When the feed's first short page is page \<open>k\<close> (all pages before it are full), the fetch
  returns, and what it returns is the concatenation, in page order, of the records of the
  pages 1 to \<open>k\<close> whose timestamp parses and lies in the closed interval from the
  window start to the window end. So a record of a fetched page with a parseable timestamp
  is in the returned sequence exactly when start \<open>\<le>\<close> timestamp \<open>\<le>\<close> end: one before the
  start or after the end is left out, one exactly at a bound is kept. The same holds for
  the native and for the token fetch.
\<close>

theorem window_filter_inclusive:
  assumes "ends_at ethRequest k" and "ends_at ercRequest m"
  shows "(\<exists>res. fetchETHTransactions ethRequest t0 t2 = Some (Inr res) \<and>
           res = concat (map (\<lambda>p. filter (keeps eth_TimeStamp t0 t2) (page_of ethRequest p)) [1..<Suc k]) \<and>
           (\<forall>p tx ts. 1 \<le> p \<and> p \<le> k \<and> tx \<in> set (page_of ethRequest p) \<and>
                ParseInt (eth_TimeStamp tx) = Some ts \<longrightarrow>
                (tx \<in> set res \<longleftrightarrow> t0 \<le> time_Unix ts \<and> time_Unix ts \<le> t2)) \<and>
           (\<forall>tx \<in> set res. \<exists>p ts. 1 \<le> p \<and> p \<le> k \<and> tx \<in> set (page_of ethRequest p) \<and>
                ParseInt (eth_TimeStamp tx) = Some ts \<and> t0 \<le> time_Unix ts \<and> time_Unix ts \<le> t2)) \<and>
         (\<exists>res. fetchERC20Transactions ercRequest t0 t2 = Some (Inr res) \<and>
           res = concat (map (\<lambda>p. filter (keeps erc_TimeStamp t0 t2) (page_of ercRequest p)) [1..<Suc m]) \<and>
           (\<forall>p tx ts. 1 \<le> p \<and> p \<le> m \<and> tx \<in> set (page_of ercRequest p) \<and>
                ParseInt (erc_TimeStamp tx) = Some ts \<longrightarrow>
                (tx \<in> set res \<longleftrightarrow> t0 \<le> time_Unix ts \<and> time_Unix ts \<le> t2)) \<and>
           (\<forall>tx \<in> set res. \<exists>p ts. 1 \<le> p \<and> p \<le> m \<and> tx \<in> set (page_of ercRequest p) \<and>
                ParseInt (erc_TimeStamp tx) = Some ts \<and> t0 \<le> time_Unix ts \<and> time_Unix ts \<le> t2))"
  unfolding fetchETHTransactions_def fetchERC20Transactions_def
  by (rule conjI) (rule fetch_window[OF assms(1)], rule fetch_window[OF assms(2)])

text \<open>
  One page with records one second before the start, at the start, inside, with an
  unreadable timestamp, at the end and one second after the end.
\<close>

theorem window_filter_inclusive_witness:
  "ends_at eth_page 1 \<and> ends_at erc_page 1 \<and>
   fetchETHTransactions eth_page T0 T2 =
     Some (Inr [mk_eth ''0xe2'' ''11'' ''1700000000'' ''0xaa'' ''0xbb'' ''0'',
                mk_eth ''0xe3'' ''12'' ''1700001800'' ''0xaa'' ''0xbb'' ''0'',
                mk_eth ''0xe5'' ''14'' ''1700003600'' ''0xaa'' ''0xbb'' ''0'']) \<and>
   fetchERC20Transactions erc_page T0 T2 =
     Some (Inr [mk_erc ''0xf2'' ''11'' ''1700000000'' ''0xaa'' ''0xbb'' ''0xt1'',
                mk_erc ''0xf3'' ''13'' ''1700003600'' ''0xaa'' ''0xbb'' ''0xt2''])"
proof -
  have u: "[1..<Suc 1] = [1::nat]" by simp
  note w = window_filter_inclusive[OF eth_page_ends erc_page_ends, of T0 T2]
  from w[THEN conjunct1] obtain r1 where
    r1: "fetchETHTransactions eth_page T0 T2 = Some (Inr r1)"
        "r1 = concat (map (\<lambda>p. filter (keeps eth_TimeStamp T0 T2) (page_of eth_page p)) [1..<Suc 1])"
    by blast
  from w[THEN conjunct2] obtain r2 where
    r2: "fetchERC20Transactions erc_page T0 T2 = Some (Inr r2)"
        "r2 = concat (map (\<lambda>p. filter (keeps erc_TimeStamp T0 T2) (page_of erc_page p)) [1..<Suc 1])"
    by blast
  have e1: "r1 = filter (keeps eth_TimeStamp T0 T2) (page_of eth_page 1)"
    unfolding r1(2) u by simp
  have e2: "r2 = filter (keeps erc_TimeStamp T0 T2) (page_of erc_page 1)"
    unfolding r2(2) u by simp
  show ?thesis
    unfolding r1(1) r2(1) e1 e2 keeps_eth_page keeps_erc_page
    using eth_page_ends erc_page_ends by simp
qed

section \<open>The sync coordinator\<close>

lemma fetch_finishes:
  assumes "finishes doRequest"
  shows "\<exists>r. fetch_loop stamp doRequest st en defaultPage [] = Some r"
proof -
  from assms obtain k where k: "1 \<le> k" "\<forall>p. 1 \<le> p \<and> p < k \<longrightarrow> full_page doRequest p"
      "\<not> full_page doRequest k"
    unfolding finishes_def by blast
  show ?thesis
  proof (cases "doRequest k")
    case (Inl e)
    from fetch_loop_error[OF k(1) k(2) Inl] show ?thesis by (simp add: defaultPage_def)
  next
    case (Inr txs)
    with k(3) have "short_page doRequest k" by (simp add: full_page_def short_page_def)
    from fetch_loop_returns[OF k(1) k(2) this] show ?thesis by (simp add: defaultPage_def)
  qed
qed

lemma insert_all_superset: "set rows \<subseteq> set (insert_all rows ts)"
proof -
  have "set rows \<subseteq> set (foldl insert_on_conflict_do_nothing rows rs)" for rs
  proof (induction rs arbitrary: rows)
    case Nil
    then show ?case by simp
  next
    case (Cons r rs)
    have "set rows \<subseteq> set (insert_on_conflict_do_nothing rows r)"
      by (auto simp: insert_on_conflict_do_nothing_def)
    with Cons[of "insert_on_conflict_do_nothing rows r"] show ?case by auto
  qed
  then show ?thesis by (simp add: insert_all_def)
qed

lemma AddTransfersBatch_cases:
  obtains "AddTransfersBatch f d ts = (None, d\<lparr>transfers := insert_all (transfers d) ts\<rparr>)"
  | e where "AddTransfersBatch f d ts = (Some e, d)"
  using AddTransfersBatch_ok[of ts f d] AddTransfersBatch_err[of ts f d] by blast

lemma store_step:
  "step_ok d (case AddTransfersBatch f d ts of
                 (Some err, d') \<Rightarrow> Some (Some (Wrap msg err), d')
               | (None, d') \<Rightarrow> Some (None, d'))"
proof (cases rule: AddTransfersBatch_cases[of f d ts])
  case 1
  then show ?thesis by (simp add: step_ok_def insert_all_superset)
next
  case (2 e)
  then show ?thesis by (simp add: step_ok_def)
qed

lemma eth_step:
  assumes "responsive w"
  shows "step_ok d (fetchAndStoreETHTransfers w d a st en)"
proof -
  define lastBlock where "lastBlock =
     (if snd (GetLastProcessedBlock (eth_cursor_fails w a) d a ''0x0000000000000000000000000000000000000000'') \<noteq> None
      then 0 else fst (GetLastProcessedBlock (eth_cursor_fails w a) d a ''0x0000000000000000000000000000000000000000''))"
  from assms have "finishes (eth_feed w a b)" for b by (simp add: responsive_def)
  from fetch_finishes[OF this] obtain r where
    r: "GetETHTransfers (eth_feed w) a st en lastBlock = Some r"
    unfolding GetETHTransfers_def fetchETHTransactions_def Let_def by blast
  have u: "fetchAndStoreETHTransfers w d a st en =
     (case GetETHTransfers (eth_feed w) a st en lastBlock of
           None \<Rightarrow> None
         | Some (Inl err) \<Rightarrow> Some (Some (Wrap ''fetching ETH transfers'' err), d)
         | Some (Inr transactions) \<Rightarrow>
             (if length (eth_batch [] transactions) > 0
                 then (case AddTransfersBatch (eth_batch_faults w a) d (eth_batch [] transactions) of
                         (Some err, d') \<Rightarrow> Some (Some (Wrap ''storing ETH transfers batch'' err), d')
                       | (None, d') \<Rightarrow> Some (None, d'))
                 else Some (None, d)))"
    unfolding fetchAndStoreETHTransfers_def Let_def lastBlock_def ..
  show ?thesis
  proof (cases r)
    case (Inl e)
    then show ?thesis unfolding u r by (simp add: step_ok_def)
  next
    case (Inr txs)
    show ?thesis
    proof (cases "length (eth_batch [] txs) > 0")
      case True
      then show ?thesis unfolding u r Inr
        using store_step[where d=d and f="eth_batch_faults w a" and ts="eth_batch [] txs"] by simp
    next
      case False
      then show ?thesis unfolding u r Inr by (simp add: step_ok_def)
    qed
  qed
qed

lemma erc20_step:
  assumes "responsive w"
  shows "step_ok d (fetchAndStoreAllERC20Transfers w d a st en)"
proof -
  define lastBlock where "lastBlock =
     (if snd (GetLastProcessedBlockForERC20 (erc20_cursor_fails w a) d a) \<noteq> None
      then 0 else fst (GetLastProcessedBlockForERC20 (erc20_cursor_fails w a) d a))"
  from assms have "finishes (erc20_feed w a c b)" for c b by (simp add: responsive_def)
  from fetch_finishes[OF this] obtain r where
    r: "GetERC20Transfers (erc20_feed w) a [] st en lastBlock = Some r"
    unfolding GetERC20Transfers_def fetchERC20Transactions_def Let_def by blast
  have u: "fetchAndStoreAllERC20Transfers w d a st en =
     (case GetERC20Transfers (erc20_feed w) a [] st en lastBlock of
           None \<Rightarrow> None
         | Some (Inl err) \<Rightarrow> Some (Some (Wrap ''fetching ERC20 transfers'' err), d)
         | Some (Inr transactions) \<Rightarrow>
             (if length (erc20_batch [] transactions) > 0
                 then (case AddTransfersBatch (erc20_batch_faults w a) d (erc20_batch [] transactions) of
                         (Some err, d') \<Rightarrow> Some (Some (Wrap ''storing ERC20 transfers batch'' err), d')
                       | (None, d') \<Rightarrow> Some (None, d'))
                 else Some (None, d)))"
    unfolding fetchAndStoreAllERC20Transfers_def Let_def lastBlock_def ..
  show ?thesis
  proof (cases r)
    case (Inl e)
    then show ?thesis unfolding u r by (simp add: step_ok_def)
  next
    case (Inr txs)
    show ?thesis
    proof (cases "length (erc20_batch [] txs) > 0")
      case True
      then show ?thesis unfolding u r Inr
        using store_step[where d=d and f="erc20_batch_faults w a" and ts="erc20_batch [] txs"] by simp
    next
      case False
      then show ?thesis unfolding u r Inr by (simp add: step_ok_def)
    qed
  qed
qed

lemma sync_addresses_append:
  "sync_addresses w st en (xs @ ys) d =
     (case sync_addresses w st en xs d of None \<Rightarrow> None | Some d1 \<Rightarrow> sync_addresses w st en ys d1)"
  by (induction xs arbitrary: d) (auto split: option.splits)

lemma sync_addresses_total:
  assumes "responsive w"
  shows "\<exists>d'. sync_addresses w st en as d = Some d' \<and> set (transfers d) \<subseteq> set (transfers d') \<and>
           config d' = config d \<and> source_addresses d' = source_addresses d"
proof (induction as arbitrary: d)
  case Nil
  then show ?case by simp
next
  case (Cons a as)
  from eth_step[OF assms, of d a st en] obtain e1 d1 where
    s1: "fetchAndStoreETHTransfers w d a st en = Some (e1, d1)"
        "set (transfers d) \<subseteq> set (transfers d1)" "config d1 = config d"
        "source_addresses d1 = source_addresses d"
    unfolding step_ok_def by blast
  show ?case
  proof (cases e1)
    case (Some err)
    from Cons[of d1] obtain d' where
      "sync_addresses w st en as d1 = Some d'" "set (transfers d1) \<subseteq> set (transfers d')"
      "config d' = config d1" "source_addresses d' = source_addresses d1" by blast
    then show ?thesis using s1 Some by auto
  next
    case None
    from erc20_step[OF assms, of d1 a st en] obtain e2 d2 where
      s2: "fetchAndStoreAllERC20Transfers w d1 a st en = Some (e2, d2)"
          "set (transfers d1) \<subseteq> set (transfers d2)" "config d2 = config d1"
          "source_addresses d2 = source_addresses d1"
      unfolding step_ok_def by blast
    from Cons[of d2] obtain d' where
      "sync_addresses w st en as d2 = Some d'" "set (transfers d2) \<subseteq> set (transfers d')"
      "config d' = config d2" "source_addresses d' = source_addresses d2" by blast
    then show ?thesis using s1 s2 None by auto
  qed
qed

lemma sync_one_eth_failed:
  assumes "fetchAndStoreETHTransfers w d a st en = Some (Some e, dx)" "responsive w"
  shows "sync_addresses w st en [a] d = Some d"
proof -
  from eth_step[OF assms(2), of d a st en] assms(1) have "dx = d"
    unfolding step_ok_def by auto
  then show ?thesis using assms(1) by simp
qed

lemma sync_one_erc20_failed:
  assumes "fetchAndStoreETHTransfers w d a st en = Some (None, dx)"
      "fetchAndStoreAllERC20Transfers w dx a st en = Some (Some e, dy)" "responsive w"
  shows "sync_addresses w st en [a] d = Some dx"
proof -
  from erc20_step[OF assms(3), of dx a st en] assms(2) have "dy = dx"
    unfolding step_ok_def by auto
  then show ?thesis using assms(1,2) by simp
qed

lemma FetchAndStoreTransfers_run:
  assumes "source_addresses d \<noteq> []" "\<not> list_fails w"
      "sync_addresses w (one_month_before w (now_fetch w)) (now_fetch w) (source_addresses d) d = Some d1"
  shows "FetchAndStoreTransfers w d =
     Some (None, snd (UpdateConfig (config_write_fails w configKeyLastTokenUpdate)
              (snd (UpdateConfig (config_write_fails w configKeyLastETHUpdate) d1
                      configKeyLastETHUpdate (now_stamp w)))
              configKeyLastTokenUpdate (now_stamp w)))"
  using assms by (simp add: FetchAndStoreTransfers_def GetSourceAddresses_def Let_def)

lemma UpdateConfig_transfers: "transfers (snd (UpdateConfig f d k v)) = transfers d"
  by (simp add: UpdateConfig_def)

lemma env3_responsive: "responsive env3"
  unfolding responsive_def finishes_def
  by (auto intro!: exI[of _ 1] simp: env3_def full_page_def defaultOffset_def)

lemma fetch_loop_first_page:
  "fetch_loop stamp doRequest st en (Suc 0) [] =
     (case doRequest (Suc 0) of
        Inl e \<Rightarrow> Some (Inl e)
      | Inr txs \<Rightarrow>
          if length txs < defaultOffset then Some (Inr (filter (keeps stamp st en) txs))
          else fetch_loop stamp doRequest st en (Suc (Suc 0)) (filter (keeps stamp st en) txs))"
  by (subst fetch_loop.simps) (simp add: Let_def filter_page_eq split: sum.splits)

lemmas eval_defs =
  fetchAndStoreETHTransfers_def fetchAndStoreAllERC20Transfers_def
  GetETHTransfers_def GetERC20Transfers_def fetchETHTransactions_def fetchERC20Transactions_def
  defaultPage_def defaultOffset_def defaultStartBlock_def fetch_loop_first_page
  GetLastProcessedBlock_def GetLastProcessedBlockForERC20_def token_blocks_def involves_def
  COALESCE_def keeps_def time_Unix_def ParseInt_def ParseUint_def digit_value_def
  AddTransfersBatch_def BeginTxx_def Commit_def Rollback_def normalize_addresses_def
  insert_on_conflict_do_nothing_def unique_key_def ToLower_def toLowerChar_def
  mk_eth_def mk_erc_def no_faults_def Let_def

lemma sample_first_address_native:
  "fetchAndStoreETHTransfers env3 db3 ''0xa1'' 1697411600000000000 1700003600000000000 =
   Some (None, db3\<lparr>transfers :=
     [\<lparr>Hash = ''0xe1'', BlockNumber = 100, Timestamp = 1700000100000000000,
       FromAddress = ''0xa1'', ToAddress = ''0xb1'',
       TokenAddress = ''0x0000000000000000000000000000000000000000'', Amount = ''1000''\<rparr>]\<rparr>)"
  by (simp add: eval_defs env3_def db3_def)

lemma sample_run_result:
  "map_option (\<lambda>r. (fst r, map Hash (transfers (snd r)), config (snd r) ''last_eth_update'',
        config (snd r) ''last_token_update''))
     (FetchAndStoreTransfers env3 db3) =
   Some (None, [''0xe1'', ''0xf1'', ''0xe3'', ''0xf3''], Some ''2023-11-14T23:13:20Z'', Some ''2023-11-14T23:13:20Z'')"
  by (simp add: FetchAndStoreTransfers_def GetSourceAddresses_def UpdateConfig_def
        configKeyLastETHUpdate_def configKeyLastTokenUpdate_def eval_defs env3_def db3_def)

lemma sample_second_address_fails:
  "fetchAndStoreETHTransfers env3 d ''0xa2'' st en =
   Some (Some (Wrap ''fetching ETH transfers'' TransportError), d)"
  by (simp add: fetchAndStoreETHTransfers_def GetETHTransfers_def fetchETHTransactions_def
       defaultPage_def fetch_loop_first_page env3_def Let_def)

text \<open>
  Claim C3. Partial-failure isolation. With at least one tracked address, a listing that
  succeeds and feeds that finish, \<^verbatim>\<open>FetchAndStoreTransfers\<close> returns, and it returns
  \<^verbatim>\<open>nil\<close>, never the error of an address. Wherever an address \<open>a\<close> stands in the
  list, the run is the run over the addresses before it, then the step of \<open>a\<close>, then the
  run over the addresses after it: these are processed whatever happened at \<open>a\<close>.
  When the native step of \<open>a\<close> fails, \<open>a\<close> leaves the database as it found it; when
  its token step fails, what its native step stored stays. The rows present after the
  step of \<open>a\<close> are in the final ledger.
\<close>

theorem syncAll_partial_failure_isolation:
  fixes w :: env and d :: db
  defines "en \<equiv> now_fetch w"
  defines "st \<equiv> one_month_before w (now_fetch w)"
  assumes ne: "source_addresses d \<noteq> []" and ls: "\<not> list_fails w" and rs: "responsive w"
  shows "\<exists>d'. FetchAndStoreTransfers w d = Some (None, d') \<and>
     (\<forall>pre a post. source_addresses d = pre @ a # post \<longrightarrow>
        (\<exists>d1 d2 d3. sync_addresses w st en pre d = Some d1 \<and>
                    sync_addresses w st en [a] d1 = Some d2 \<and>
                    sync_addresses w st en post d2 = Some d3 \<and>
                    transfers d' = transfers d3 \<and>
                    set (transfers d2) \<subseteq> set (transfers d') \<and>
                    (\<forall>e dx. fetchAndStoreETHTransfers w d1 a st en = Some (Some e, dx) \<longrightarrow> d2 = d1) \<and>
                    (\<forall>e dx dy. fetchAndStoreETHTransfers w d1 a st en = Some (None, dx) \<and>
                         fetchAndStoreAllERC20Transfers w dx a st en = Some (Some e, dy) \<longrightarrow> d2 = dx)))"
proof -
  from sync_addresses_total[OF rs, of st en "source_addresses d" d] obtain df where
    df: "sync_addresses w st en (source_addresses d) d = Some df" by blast
  define d' where "d' = snd (UpdateConfig (config_write_fails w configKeyLastTokenUpdate)
              (snd (UpdateConfig (config_write_fails w configKeyLastETHUpdate) df
                      configKeyLastETHUpdate (now_stamp w)))
              configKeyLastTokenUpdate (now_stamp w))"
  have run: "FetchAndStoreTransfers w d = Some (None, d')"
    unfolding d'_def using FetchAndStoreTransfers_run[OF ne ls] df unfolding st_def en_def by simp
  have td: "transfers d' = transfers df"
    unfolding d'_def by (simp add: UpdateConfig_transfers)
  have split: "\<exists>d1 d2 d3. sync_addresses w st en pre d = Some d1 \<and>
                    sync_addresses w st en [a] d1 = Some d2 \<and>
                    sync_addresses w st en post d2 = Some d3 \<and>
                    transfers d' = transfers d3 \<and>
                    set (transfers d2) \<subseteq> set (transfers d') \<and>
                    (\<forall>e dx. fetchAndStoreETHTransfers w d1 a st en = Some (Some e, dx) \<longrightarrow> d2 = d1) \<and>
                    (\<forall>e dx dy. fetchAndStoreETHTransfers w d1 a st en = Some (None, dx) \<and>
                         fetchAndStoreAllERC20Transfers w dx a st en = Some (Some e, dy) \<longrightarrow> d2 = dx)"
    if sp: "source_addresses d = pre @ a # post" for pre a post
  proof -
    from sync_addresses_total[OF rs, of st en pre d] obtain d1 where
      d1: "sync_addresses w st en pre d = Some d1" by blast
    from sync_addresses_total[OF rs, of st en "[a]" d1] obtain d2 where
      d2: "sync_addresses w st en [a] d1 = Some d2" by blast
    from sync_addresses_total[OF rs, of st en post d2] obtain d3 where
      d3: "sync_addresses w st en post d2 = Some d3" "set (transfers d2) \<subseteq> set (transfers d3)" by blast
    have "sync_addresses w st en (pre @ [a] @ post) d = Some d3"
      using d1 d2 d3(1) by (simp only: sync_addresses_append option.case)
    then have eq: "df = d3" using df sp by simp
    have f1: "d2 = d1" if "fetchAndStoreETHTransfers w d1 a st en = Some (Some e, dx)" for e dx
      using sync_one_eth_failed[OF that rs] d2 by simp
    have f2: "d2 = dx" if "fetchAndStoreETHTransfers w d1 a st en = Some (None, dx)"
         "fetchAndStoreAllERC20Transfers w dx a st en = Some (Some e, dy)" for e dx dy
      using sync_one_erc20_failed[OF that rs] d2 by simp
    have t: "transfers d' = transfers d3" using td eq by simp
    have sub: "set (transfers d2) \<subseteq> set (transfers d')" using d3(2) t by simp
    have g1: "\<forall>e dx. fetchAndStoreETHTransfers w d1 a st en = Some (Some e, dx) \<longrightarrow> d2 = d1"
      using f1 by blast
    have g2: "\<forall>e dx dy. fetchAndStoreETHTransfers w d1 a st en = Some (None, dx) \<and>
                 fetchAndStoreAllERC20Transfers w dx a st en = Some (Some e, dy) \<longrightarrow> d2 = dx"
      using f2 by blast
    show ?thesis
      by (rule exI[of _ d1], rule exI[of _ d2], rule exI[of _ d3])
         (intro conjI d1 d2 d3(1) t sub g1 g2)
  qed
  have all: "\<forall>pre a post. source_addresses d = pre @ a # post \<longrightarrow>
        (\<exists>d1 d2 d3. sync_addresses w st en pre d = Some d1 \<and>
                    sync_addresses w st en [a] d1 = Some d2 \<and>
                    sync_addresses w st en post d2 = Some d3 \<and>
                    transfers d' = transfers d3 \<and>
                    set (transfers d2) \<subseteq> set (transfers d') \<and>
                    (\<forall>e dx. fetchAndStoreETHTransfers w d1 a st en = Some (Some e, dx) \<longrightarrow> d2 = d1) \<and>
                    (\<forall>e dx dy. fetchAndStoreETHTransfers w d1 a st en = Some (None, dx) \<and>
                         fetchAndStoreAllERC20Transfers w dx a st en = Some (Some e, dy) \<longrightarrow> d2 = dx))"
    using split by (intro allI impI)
  show ?thesis by (rule exI[of _ d']) (intro conjI run all)
qed

text \<open>
  Three tracked addresses; the request for the native transactions of the second one fails
  with a transport error. The run returns \<^verbatim>\<open>nil\<close>, and the ledger holds the native and
  the token transfer of the first and of the third address.
\<close>

theorem syncAll_partial_failure_isolation_witness:
  "source_addresses db3 \<noteq> [] \<and> \<not> list_fails env3 \<and> responsive env3 \<and>
   fetchAndStoreETHTransfers env3 db3 ''0xa2'' (one_month_before env3 (now_fetch env3)) (now_fetch env3) =
     Some (Some (Wrap ''fetching ETH transfers'' TransportError), db3) \<and>
   (\<exists>d'. FetchAndStoreTransfers env3 db3 = Some (None, d')) \<and>
   map_option (\<lambda>r. (fst r, map Hash (transfers (snd r)), config (snd r) ''last_eth_update'',
        config (snd r) ''last_token_update''))
     (FetchAndStoreTransfers env3 db3) =
   Some (None, [''0xe1'', ''0xf1'', ''0xe3'', ''0xf3''], Some ''2023-11-14T23:13:20Z'', Some ''2023-11-14T23:13:20Z'')"
proof -
  have ne: "source_addresses db3 \<noteq> []" by (simp add: db3_def)
  have ls: "\<not> list_fails env3" by (simp add: env3_def)
  from syncAll_partial_failure_isolation[OF ne ls env3_responsive]
  have ex: "\<exists>d'. FetchAndStoreTransfers env3 db3 = Some (None, d')" by blast
  show ?thesis by (intro conjI ne ls env3_responsive sample_second_address_fails ex sample_run_result)
qed

text \<open>
  Claim C4, as amended. A run over a non-empty list of tracked addresses (listing
  succeeded, feeds finish) returns \<^verbatim>\<open>nil\<close> whatever happened to single addresses, and
  each of the two freshness markers whose config write succeeds holds the time stamp taken
  at the end of the run.
\<close>

theorem syncAll_stamps_markers:
  assumes ne: "source_addresses d \<noteq> []" and ls: "\<not> list_fails w" and rs: "responsive w"
  shows "\<exists>d'. FetchAndStoreTransfers w d = Some (None, d') \<and>
           (\<not> config_write_fails w configKeyLastETHUpdate \<longrightarrow>
              config d' configKeyLastETHUpdate = Some (now_stamp w)) \<and>
           (\<not> config_write_fails w configKeyLastTokenUpdate \<longrightarrow>
              config d' configKeyLastTokenUpdate = Some (now_stamp w))"
proof -
  from sync_addresses_total[OF rs, of "one_month_before w (now_fetch w)" "now_fetch w" "source_addresses d" d]
  obtain df where
    df: "sync_addresses w (one_month_before w (now_fetch w)) (now_fetch w) (source_addresses d) d = Some df"
    by blast
  have k: "configKeyLastETHUpdate \<noteq> configKeyLastTokenUpdate"
    by (simp add: configKeyLastETHUpdate_def configKeyLastTokenUpdate_def)
  show ?thesis
    unfolding FetchAndStoreTransfers_run[OF ne ls df]
    using k by (simp add: UpdateConfig_def)
qed

text \<open>
  The sample run, in which the second address fails: both markers hold the end-of-run
  stamp.
\<close>

theorem syncAll_stamps_markers_witness:
  "source_addresses db3 \<noteq> [] \<and> \<not> list_fails env3 \<and> responsive env3 \<and>
   \<not> config_write_fails env3 configKeyLastETHUpdate \<and>
   \<not> config_write_fails env3 configKeyLastTokenUpdate \<and>
   (\<exists>d'. FetchAndStoreTransfers env3 db3 = Some (None, d') \<and>
      config d' configKeyLastETHUpdate = Some ''2023-11-14T23:13:20Z'' \<and>
      config d' configKeyLastTokenUpdate = Some ''2023-11-14T23:13:20Z'')"
proof -
  have ne: "source_addresses db3 \<noteq> []" by (simp add: db3_def)
  have ls: "\<not> list_fails env3" by (simp add: env3_def)
  have c1: "\<not> config_write_fails env3 configKeyLastETHUpdate" by (simp add: env3_def)
  have c2: "\<not> config_write_fails env3 configKeyLastTokenUpdate" by (simp add: env3_def)
  have s: "now_stamp env3 = ''2023-11-14T23:13:20Z''" by (simp add: env3_def)
  from syncAll_stamps_markers[OF ne ls env3_responsive] c1 c2
  have "\<exists>d'. FetchAndStoreTransfers env3 db3 = Some (None, d') \<and>
      config d' configKeyLastETHUpdate = Some (now_stamp env3) \<and>
      config d' configKeyLastTokenUpdate = Some (now_stamp env3)" by blast
  then show ?thesis unfolding s using ne ls env3_responsive c1 c2 by blast
qed

text \<open>
  Claim C4 as stated fails when no address is tracked: the run completes with \<^verbatim>\<open>nil\<close>
  through the early return, the database is untouched, and both markers keep their old
  value instead of the current time.
\<close>

theorem syncAll_no_addresses_keeps_markers:
  "FetchAndStoreTransfers env3 db_idle = Some (None, db_idle) \<and>
   config db_idle configKeyLastETHUpdate = Some ''1970-01-01 00:00:00+00'' \<and>
   config db_idle configKeyLastTokenUpdate = Some ''1970-01-01 00:00:00+00'' \<and>
   now_stamp env3 = ''2023-11-14T23:13:20Z''"
  by (simp add: FetchAndStoreTransfers_def GetSourceAddresses_def db_idle_def db3_def env3_def
        configKeyLastETHUpdate_def configKeyLastTokenUpdate_def)

lemma erc20_batch_eq: "erc20_batch acc txs = acc @ map erc_record (filter erc_readable txs)"
  by (induction txs arbitrary: acc)
     (auto simp: erc_readable_def erc_record_def split: option.splits)

lemma eth_batch_eq:
  "eth_batch acc txs = acc @ map eth_record (filter (\<lambda>tx. eth_IsError tx = ''0'' \<and> eth_readable tx) txs)"
  by (induction txs arbitrary: acc)
     (auto simp: eth_readable_def eth_record_def split: option.splits)

lemma erc20_store:
  assumes "GetERC20Transfers (erc20_feed w) a [] st en (erc20_resume_block w d a) = Some (Inr txs)"
      and "fault_free (erc20_batch_faults w a) (length (erc20_batch [] txs))"
  shows "fetchAndStoreAllERC20Transfers w d a st en =
           Some (None, d\<lparr>transfers := insert_all (transfers d) (erc20_batch [] txs)\<rparr>)"
proof -
  have u: "fetchAndStoreAllERC20Transfers w d a st en =
     (case GetERC20Transfers (erc20_feed w) a [] st en (erc20_resume_block w d a) of
           None \<Rightarrow> None
         | Some (Inl err) \<Rightarrow> Some (Some (Wrap ''fetching ERC20 transfers'' err), d)
         | Some (Inr transactions) \<Rightarrow>
             (if length (erc20_batch [] transactions) > 0
                 then (case AddTransfersBatch (erc20_batch_faults w a) d (erc20_batch [] transactions) of
                         (Some err, d') \<Rightarrow> Some (Some (Wrap ''storing ERC20 transfers batch'' err), d')
                       | (None, d') \<Rightarrow> Some (None, d'))
                 else Some (None, d)))"
    unfolding fetchAndStoreAllERC20Transfers_def Let_def erc20_resume_block_def ..
  show ?thesis
  proof (cases "length (erc20_batch [] txs) > 0")
    case True
    then show ?thesis unfolding u assms(1)
      using AddTransfersBatch_ok[of "erc20_batch [] txs" "erc20_batch_faults w a" d] assms(2)
      by simp
  next
    case False
    then have "erc20_batch [] txs = []" by simp
    then show ?thesis unfolding u assms(1) by (simp add: insert_all_def)
  qed
qed

text \<open>
  Claim C10. The batch built from fetched token transactions consists, in order, of the
  ledger records of exactly those transactions whose block number and timestamp parse;
  the record type has no failure flag and none is tested. The batch built from native
  transactions keeps only those whose \<^verbatim>\<open>isError\<close> field is \<^verbatim>\<open>"0"\<close> (and that parse).
  When the token fetch returns a sequence and the driver does not fail, every readable
  transaction of that sequence went through the insert statement.
\<close>

theorem erc20_path_ignores_status:
  "erc20_batch [] txs = map erc_record (filter erc_readable txs) \<and>
   eth_batch [] etxs =
     map eth_record (filter (\<lambda>tx. eth_IsError tx = ''0'' \<and> eth_readable tx) etxs) \<and>
   (GetERC20Transfers (erc20_feed w) a [] st en (erc20_resume_block w d a) = Some (Inr txs) \<and>
    fault_free (erc20_batch_faults w a) (length (filter erc_readable txs)) \<longrightarrow>
      fetchAndStoreAllERC20Transfers w d a st en =
        Some (None, d\<lparr>transfers :=
                insert_all (transfers d) (map erc_record (filter erc_readable txs))\<rparr>))"
proof -
  have 1: "erc20_batch [] txs = map erc_record (filter erc_readable txs)"
    by (simp add: erc20_batch_eq)
  have 2: "eth_batch [] etxs =
     map eth_record (filter (\<lambda>tx. eth_IsError tx = ''0'' \<and> eth_readable tx) etxs)"
    by (simp add: eth_batch_eq)
  have 3: "fetchAndStoreAllERC20Transfers w d a st en =
        Some (None, d\<lparr>transfers :=
                insert_all (transfers d) (map erc_record (filter erc_readable txs))\<rparr>)"
    if "GetERC20Transfers (erc20_feed w) a [] st en (erc20_resume_block w d a) = Some (Inr txs)"
       "fault_free (erc20_batch_faults w a) (length (filter erc_readable txs))"
    using erc20_store[OF that(1)] that(2) unfolding 1 by simp
  show ?thesis using 1 2 3 by blast
qed

text \<open>
  For the third sample address: of two token transactions the one with an unreadable block
  number is dropped and the other is stored; of two native transactions the one flagged
  as failed is dropped.
\<close>

theorem erc20_path_ignores_status_witness:
  "GetERC20Transfers (erc20_feed env3) ''0xa3'' [] 1697411600000000000 1700003600000000000
       (erc20_resume_block env3 db3 ''0xa3'') =
     Some (Inr [mk_erc ''0xf3'' ''104'' ''1700000500'' ''0xa3'' ''0xb3'' ''0xt2'',
                mk_erc ''0xf4'' ''0x69'' ''1700000600'' ''0xa3'' ''0xb3'' ''0xt2'']) \<and>
   fault_free (erc20_batch_faults env3 ''0xa3'')
     (length (filter erc_readable
        [mk_erc ''0xf3'' ''104'' ''1700000500'' ''0xa3'' ''0xb3'' ''0xt2'',
         mk_erc ''0xf4'' ''0x69'' ''1700000600'' ''0xa3'' ''0xb3'' ''0xt2''])) \<and>
   fetchAndStoreAllERC20Transfers env3 db3 ''0xa3'' 1697411600000000000 1700003600000000000 =
     Some (None, db3\<lparr>transfers :=
        [\<lparr>Hash = ''0xf3'', BlockNumber = 104, Timestamp = 1700000500000000000,
          FromAddress = ''0xa3'', ToAddress = ''0xb3'', TokenAddress = ''0xt2'',
          Amount = ''2000''\<rparr>]\<rparr>) \<and>
   eth_batch []
     [mk_eth ''0xe1'' ''100'' ''1700000100'' ''0xa1'' ''0xB1'' ''0'',
      mk_eth ''0xe2'' ''101'' ''1700000200'' ''0xa1'' ''0xb2'' ''1''] =
     [\<lparr>Hash = ''0xe1'', BlockNumber = 100, Timestamp = 1700000100000000000,
       FromAddress = ''0xa1'', ToAddress = ''0xB1'',
       TokenAddress = ''0x0000000000000000000000000000000000000000'', Amount = ''1000''\<rparr>]"
proof -
  let ?txs = "[mk_erc ''0xf3'' ''104'' ''1700000500'' ''0xa3'' ''0xb3'' ''0xt2'',
               mk_erc ''0xf4'' ''0x69'' ''1700000600'' ''0xa3'' ''0xb3'' ''0xt2'']"
  have h1: "GetERC20Transfers (erc20_feed env3) ''0xa3'' [] 1697411600000000000 1700003600000000000
       (erc20_resume_block env3 db3 ''0xa3'') = Some (Inr ?txs)"
    by (simp add: erc20_resume_block_def eval_defs env3_def db3_def)
  have h2: "fault_free (erc20_batch_faults env3 ''0xa3'') (length (filter erc_readable ?txs))"
    by (simp add: env3_def fault_free_no_faults)
  have r: "insert_all (transfers db3) (map erc_record (filter erc_readable ?txs)) =
        [\<lparr>Hash = ''0xf3'', BlockNumber = 104, Timestamp = 1700000500000000000,
          FromAddress = ''0xa3'', ToAddress = ''0xb3'', TokenAddress = ''0xt2'',
          Amount = ''2000''\<rparr>]"
    by (simp add: erc_readable_def erc_record_def insert_all_def db3_def eval_defs)
  have e: "map eth_record (filter (\<lambda>tx. eth_IsError tx = ''0'' \<and> eth_readable tx)
     [mk_eth ''0xe1'' ''100'' ''1700000100'' ''0xa1'' ''0xB1'' ''0'',
      mk_eth ''0xe2'' ''101'' ''1700000200'' ''0xa1'' ''0xb2'' ''1'']) =
     [\<lparr>Hash = ''0xe1'', BlockNumber = 100, Timestamp = 1700000100000000000,
       FromAddress = ''0xa1'', ToAddress = ''0xB1'',
       TokenAddress = ''0x0000000000000000000000000000000000000000'', Amount = ''1000''\<rparr>]"
    by (simp add: eth_readable_def eth_record_def eval_defs)
  note t = erc20_path_ignores_status[of ?txs
      "[mk_eth ''0xe1'' ''100'' ''1700000100'' ''0xa1'' ''0xB1'' ''0'',
        mk_eth ''0xe2'' ''101'' ''1700000200'' ''0xa1'' ''0xb2'' ''1'']"
      env3 "''0xa3''" 1697411600000000000 1700003600000000000 db3]
  from t[THEN conjunct2, THEN conjunct2] h1 h2
  have s: "fetchAndStoreAllERC20Transfers env3 db3 ''0xa3'' 1697411600000000000 1700003600000000000 =
        Some (None, db3\<lparr>transfers :=
                insert_all (transfers db3) (map erc_record (filter erc_readable ?txs))\<rparr>)"
    by blast
  from t[THEN conjunct2, THEN conjunct1]
  have b: "eth_batch []
     [mk_eth ''0xe1'' ''100'' ''1700000100'' ''0xa1'' ''0xB1'' ''0'',
      mk_eth ''0xe2'' ''101'' ''1700000200'' ''0xa1'' ''0xb2'' ''1''] =
     [\<lparr>Hash = ''0xe1'', BlockNumber = 100, Timestamp = 1700000100000000000,
       FromAddress = ''0xa1'', ToAddress = ''0xB1'',
       TokenAddress = ''0x0000000000000000000000000000000000000000'', Amount = ''1000''\<rparr>]"
    unfolding e .
  show ?thesis using h1 h2 s[unfolded r] b by (intro conjI)
qed

section \<open>Scheduler and refresh policy\<close>

lemmas parse_clock_defs = time_Parse_clock_def getnum_def skip_colon_def fraction_or_end_def digit_value_def

lemma time_Parse_clock_examples:
  "time_Parse_clock ''09:00:00'' = Some \<lparr>clock_hour = 9, clock_minute = 0, clock_second = 0\<rparr>"
  "time_Parse_clock ''23:59:59'' = Some \<lparr>clock_hour = 23, clock_minute = 59, clock_second = 59\<rparr>"
  "time_Parse_clock ''24:00:00'' = None"
  "time_Parse_clock ''09:00'' = None"
  "time_Parse_clock ''9am'' = None"
  by (simp_all add: parse_clock_defs)

lemma time_Parse_clock_range:
  assumes "time_Parse_clock s = Some t"
  shows "clock_hour t < 24 \<and> clock_minute t < 60"
  using assms unfolding time_Parse_clock_def
  by (auto split: option.splits prod.splits if_splits)

lemma time_Date_hm_inj:
  assumes "m < 60" "m' < 60"
  shows "time_Date_hm h m = time_Date_hm h' m' \<longleftrightarrow> h = h' \<and> m = m'"
proof
  assume e: "time_Date_hm h m = time_Date_hm h' m'"
  then have "h * 60 + m = h' * 60 + m'" unfolding time_Date_hm_def by simp
  then have "(h * 60 + m) div 60 = (h' * 60 + m') div 60" "(h * 60 + m) mod 60 = (h' * 60 + m') mod 60"
    by simp_all
  then show "h = h' \<and> m = m'" using assms by simp
qed simp

text \<open>
  Claim C8. At a wake with a well-formed clock reading, \<^verbatim>\<open>checkAndRunDailyUpdate\<close> runs the
  daily update if and only if the configured daily refresh time can be read and parsed and
  its hour and minute equal the hour and minute of the clock; the seconds of neither take
  part.
\<close>

theorem daily_trigger_exact:
  assumes "clock_hour now < 24" and "clock_minute now < 60"
  shows "checkAndRunDailyUpdate query_fails d now = RunDailyUpdate \<longleftrightarrow>
           \<not> query_fails \<and>
           (\<exists>s t. config d configKeyDailyRefreshTime = Some s \<and> time_Parse_clock s = Some t \<and>
                  clock_hour t = clock_hour now \<and> clock_minute t = clock_minute now)"
proof (cases "GetConfig query_fails d configKeyDailyRefreshTime")
  case (Inl e)
  then have "query_fails \<or> config d configKeyDailyRefreshTime = None"
    by (auto simp: GetConfig_def split: if_splits option.splits)
  moreover have "checkAndRunDailyUpdate query_fails d now = NoAction"
    using Inl by (simp add: checkAndRunDailyUpdate_def GetDailyRefreshTime_def)
  ultimately show ?thesis by auto
next
  case (Inr s)
  then have q: "\<not> query_fails" "config d configKeyDailyRefreshTime = Some s"
    by (auto simp: GetConfig_def split: if_splits option.splits)
  show ?thesis
  proof (cases "time_Parse_clock s")
    case None
    then have "checkAndRunDailyUpdate query_fails d now = NoAction"
      using Inr by (simp add: checkAndRunDailyUpdate_def GetDailyRefreshTime_def)
    then show ?thesis using q None by auto
  next
    case (Some t)
    from time_Parse_clock_range[OF Some] have "clock_minute t < 60" by simp
    from time_Date_hm_inj[OF assms(2) this]
    have "checkAndRunDailyUpdate query_fails d now = RunDailyUpdate \<longleftrightarrow>
            clock_hour now = clock_hour t \<and> clock_minute now = clock_minute t"
      using Inr Some by (simp add: checkAndRunDailyUpdate_def GetDailyRefreshTime_def Let_def)
    then show ?thesis using q Some by auto
  qed
qed

text \<open>
  With the daily refresh time \<^verbatim>\<open>09:00:00\<close>: a wake at 09:00:30 runs the update, wakes at
  08:59:30 and at 09:01:30 do not.
\<close>

theorem daily_trigger_exact_witness:
  "clock_hour (at_clock 9 0 30) < 24 \<and> clock_minute (at_clock 9 0 30) < 60 \<and>
   checkAndRunDailyUpdate False db_nine (at_clock 9 0 30) = RunDailyUpdate \<and>
   checkAndRunDailyUpdate False db_nine (at_clock 8 59 30) \<noteq> RunDailyUpdate \<and>
   checkAndRunDailyUpdate False db_nine (at_clock 9 1 30) \<noteq> RunDailyUpdate"
proof -
  have c: "config db_nine configKeyDailyRefreshTime = Some ''09:00:00''"
    by (simp add: db_nine_def configKeyDailyRefreshTime_def)
  have p: "time_Parse_clock ''09:00:00'' = Some \<lparr>clock_hour = 9, clock_minute = 0, clock_second = 0\<rparr>"
    by (simp add: parse_clock_defs)
  have h1: "clock_hour (at_clock 9 0 30) < 24" "clock_minute (at_clock 9 0 30) < 60"
    by (simp_all add: at_clock_def)
  have h2: "clock_hour (at_clock 8 59 30) < 24" "clock_minute (at_clock 8 59 30) < 60"
    by (simp_all add: at_clock_def)
  have h3: "clock_hour (at_clock 9 1 30) < 24" "clock_minute (at_clock 9 1 30) < 60"
    by (simp_all add: at_clock_def)
  have a: "checkAndRunDailyUpdate False db_nine (at_clock 9 0 30) = RunDailyUpdate"
    unfolding daily_trigger_exact[OF h1] c by (simp add: p at_clock_def)
  have b: "checkAndRunDailyUpdate False db_nine (at_clock 8 59 30) \<noteq> RunDailyUpdate"
    unfolding daily_trigger_exact[OF h2] c by (simp add: p at_clock_def)
  have d: "checkAndRunDailyUpdate False db_nine (at_clock 9 1 30) \<noteq> RunDailyUpdate"
    unfolding daily_trigger_exact[OF h3] c by (simp add: p at_clock_def)
  show ?thesis using h1 a b d by simp
qed

lemmas refresh_defs =
  ShouldRefreshData_def GetConfig_def GetRefreshInterval_def Atoi_def ParseInt_def ParseUint_def
  digit_value_def configKeyLastETHUpdate_def configKeyMinRefreshInterval_def
  defaultMinRefreshIntervalHrs_def time_Since_def maxDuration_def minDuration_def
  interval_duration_def time_Hour_def parse_marker_def Let_def

text \<open>
  The cooldown on sample configurations: with a one-hour interval the answer is false 59
  and 60 minutes after the marker and true after 61 minutes; a missing, unreadable or
  unparseable marker gives true; an unreadable interval falls back to one hour.
\<close>

lemma ShouldRefreshData_examples:
  "ShouldRefreshData parse_marker 1700003540000000000 False False db_hourly = False"
  "ShouldRefreshData parse_marker 1700003660000000000 False False db_hourly = True"
  "ShouldRefreshData parse_marker 1700003600000000000 False False db_hourly = False"
  "ShouldRefreshData parse_marker 1700000001000000000 False False db0 = True"
  "ShouldRefreshData parse_marker 1700000001000000000 False False db3 = True"
  "ShouldRefreshData parse_marker 1700000001000000000 True False db_hourly = True"
  "ShouldRefreshData parse_marker 1700003540000000000 False True db_hourly = False"
  "ShouldRefreshData parse_marker 1700003660000000000 False True db_long_interval = True"
  by (simp_all add: refresh_defs db_hourly_def db0_def db3_def db_long_interval_def)

text \<open>
  Claim C6 at an input where the code departs from it. The interval is read as a number of
  hours and multiplied by \<^verbatim>\<open>time.Hour\<close> in 64-bit arithmetic. With the stored interval
  \<^verbatim>\<open>2562048\<close> (any value of at least 1 is accepted when the interval is set) the product
  wraps to a negative duration, and one minute after the marker \<^verbatim>\<open>ShouldRefreshData\<close>
  already answers true, although one minute does not exceed 2562048 hours.
\<close>

theorem ShouldRefreshData_interval_overflow:
  "Atoi ''2562048'' = Some 2562048 \<and>
   interval_duration 2562048 = - 9223371273709551616 \<and>
   ShouldRefreshData parse_marker 1700000060000000000 False False db_long_interval = True \<and>
   \<not> spec_elapsed_exceeds 1700000060000000000 1700000000000000000 2562048"
  by (simp add: refresh_defs db_long_interval_def spec_elapsed_exceeds_def)

lemma interval_duration_in_range:
  assumes "- 2562047 \<le> h" "h \<le> 2562047"
  shows "interval_duration h = h * 3600000000000"
proof -
  have w: "word_of_int h * (3600000000000 :: 64 word) = word_of_int (h * 3600000000000)"
    by simp
  have r: "- (2 ^ 63) \<le> h * 3600000000000" "h * 3600000000000 < 2 ^ 63"
    using assms by simp_all
  have "sint (word_of_int (h * 3600000000000) :: 64 word) = signed_take_bit 63 (h * 3600000000000)"
    by (simp only: sint_sbintrunc') simp
  also have "\<dots> = h * 3600000000000"
    using r by (intro signed_take_bit_int_eq_self) simp_all
  finally show ?thesis
    unfolding interval_duration_def time_Hour_def w .
qed

lemma ShouldRefreshData_fail_open:
  "GetConfig marker_fails d configKeyLastETHUpdate = Inl e \<Longrightarrow>
     ShouldRefreshData parse now marker_fails interval_fails d"
  "GetConfig marker_fails d configKeyLastETHUpdate = Inr s \<Longrightarrow> parse s = None \<Longrightarrow>
     ShouldRefreshData parse now marker_fails interval_fails d"
  by (simp_all add: ShouldRefreshData_def)

text \<open>
  For intervals up to 2562047 hours the product does not wrap, and the answer is true
  exactly when the elapsed time exceeds the interval.
\<close>

lemma ShouldRefreshData_in_range:
  assumes m: "GetConfig marker_fails d configKeyLastETHUpdate = Inr s"
      and p: "parse s = Some marker"
      and h: "h = (if snd (GetRefreshInterval interval_fails d) \<noteq> None
                   then defaultMinRefreshIntervalHrs
                   else fst (GetRefreshInterval interval_fails d))"
      and r: "- 2562047 \<le> h" "h \<le> 2562047"
  shows "ShouldRefreshData parse now marker_fails interval_fails d \<longleftrightarrow>
           spec_elapsed_exceeds now marker h"
proof -
  have i: "interval_duration h = h * 3600000000000"
    using r by (rule interval_duration_in_range)
  have b: "- 9223369200000000000 \<le> h * 3600000000000" "h * 3600000000000 \<le> 9223369200000000000"
    using r by simp_all
  have "ShouldRefreshData parse now marker_fails interval_fails d \<longleftrightarrow>
          time_Since now marker > interval_duration h"
    using m p h by (simp add: ShouldRefreshData_def Let_def)
  also have "\<dots> \<longleftrightarrow> now - marker > h * 3600000000000"
    unfolding i time_Since_def maxDuration_def minDuration_def Let_def using b by auto
  finally show ?thesis unfolding spec_elapsed_exceeds_def .
qed

section \<open>Amount normalisation on concrete amounts\<close>

lemma exact_text_20eth: "exact_amount_text 20000000000000000001 18 = ''20.000000000000000001''"
  by (simp add: exact_amount_text_def fixed_text_def show_nat.simps pad_left.simps)

lemma round_bits_2p64_1: "round_bits 64 18446744073709551617 False = (9223372036854775808, 1)"
  by (simp add: round_bits_def bitlen.simps Let_def)

lemma SetString_2p64_1: "Float_SetString ''18446744073709551617'' = Some \<lparr>fprec = 64, fmant = 9223372036854775808, fexp = 1\<rparr>"
  by (simp add: Float_SetString_def ParseUint_def digit_value_def round_bits_2p64_1)

lemma SetInt_one: "Float_SetInt (10 ^ 0) = \<lparr>fprec = 64, fmant = 1, fexp = 0\<rparr>"
  by (simp add: Float_SetInt_def bitlen.simps)

lemma Quo_2p64_by_one: "Float_Quo \<lparr>fprec = 64, fmant = 9223372036854775808, fexp = 1\<rparr> \<lparr>fprec = 64, fmant = 1, fexp = 0\<rparr>
   = \<lparr>fprec = 64, fmant = 9223372036854775808, fexp = 1\<rparr>"
  by (simp add: Float_Quo_def round_bits_def bitlen.simps Let_def)

lemma Text_2p64: "Float_Text_f \<lparr>fprec = 64, fmant = 9223372036854775808, fexp = 1\<rparr> 0 = ''18446744073709551616''"
  by (simp add: Float_Text_f_def fixed_text_def show_nat.simps)

lemma normalizeAmount_2p64_1: "normalizeAmount ''18446744073709551617'' 0 = ''18446744073709551616''"
  unfolding normalizeAmount_def SetString_2p64_1 Let_def option.case SetInt_one Quo_2p64_by_one Text_2p64 ..

lemma round_bits_20eth: "round_bits 64 20000000000000000001 False = (10000000000000000000, 1)"
  by (simp add: round_bits_def bitlen.simps Let_def)

lemma SetString_20eth: "Float_SetString ''20000000000000000001'' = Some \<lparr>fprec = 64, fmant = 10000000000000000000, fexp = 1\<rparr>"
  by (simp add: Float_SetString_def ParseUint_def digit_value_def round_bits_20eth)

lemma SetInt_1e18: "Float_SetInt (10 ^ 18) = \<lparr>fprec = 64, fmant = 1000000000000000000, fexp = 0\<rparr>"
  by (simp add: Float_SetInt_def bitlen.simps)

lemma Quo_20eth: "Float_Quo \<lparr>fprec = 64, fmant = 10000000000000000000, fexp = 1\<rparr>
                     \<lparr>fprec = 64, fmant = 1000000000000000000, fexp = 0\<rparr>
   = \<lparr>fprec = 64, fmant = 11529215046068469760, fexp = - 59\<rparr>"
  by (simp add: Float_Quo_def round_bits_def bitlen.simps Let_def)

lemma Text_20eth: "Float_Text_f \<lparr>fprec = 64, fmant = 11529215046068469760, fexp = - 59\<rparr> 18 = ''20.000000000000000000''"
  by (simp add: Float_Text_f_def fixed_text_def show_nat.simps pad_left.simps Let_def)

lemma normalizeAmount_20eth: "normalizeAmount ''20000000000000000001'' 18 = ''20.000000000000000000''"
  unfolding normalizeAmount_def SetString_20eth Let_def option.case SetInt_1e18 Quo_20eth Text_20eth ..

lemma SetString_1_5eth: "Float_SetString ''1500000000000000000'' = Some \<lparr>fprec = 64, fmant = 1500000000000000000, fexp = 0\<rparr>"
  by (simp add: Float_SetString_def ParseUint_def digit_value_def round_bits_def bitlen.simps Let_def)

lemma Quo_1_5eth: "Float_Quo \<lparr>fprec = 64, fmant = 1500000000000000000, fexp = 0\<rparr>
                     \<lparr>fprec = 64, fmant = 1000000000000000000, fexp = 0\<rparr>
   = \<lparr>fprec = 64, fmant = 13835058055282163712, fexp = - 63\<rparr>"
  by (simp add: Float_Quo_def round_bits_def bitlen.simps Let_def)

lemma Text_1_5eth: "Float_Text_f \<lparr>fprec = 64, fmant = 13835058055282163712, fexp = - 63\<rparr> 18 = ''1.500000000000000000''"
  by (simp add: Float_Text_f_def fixed_text_def show_nat.simps pad_left.simps Let_def)

text \<open>
  An amount that fits 64 bits, the example of the specification, is scaled exactly.
\<close>

lemma normalizeAmount_spec_example:
  "normalizeAmount ''1500000000000000000'' 18 = ''1.500000000000000000''"
  unfolding normalizeAmount_def SetString_1_5eth Let_def option.case SetInt_1e18 Quo_1_5eth Text_1_5eth ..

lemma normalizeAmount_unparsable: "normalizeAmount ''abc'' 18 = ''0''"
  by (simp add: normalizeAmount_def Float_SetString_def ParseUint_def digit_value_def)

lemma exact_text_2p64_1: "exact_amount_text 18446744073709551617 0 = ''18446744073709551617''"
  by (simp add: exact_amount_text_def fixed_text_def show_nat.simps)

text \<open>
  Claim C5 at inputs where the code departs from it. The raw amount is read into a
  \<^verbatim>\<open>big.Float\<close> of 64 bits of precision, so an amount that needs more than 64 bits is
  rounded before it is divided. 20 ether and 1 wei (20000000000000000001, decimals 18) is
  printed as 20.000000000000000000 where the exact quotient is 20.000000000000000001, and
  with decimals 0 the amount 18446744073709551617 (2 to the 64 plus 1) is printed as
  18446744073709551616.
\<close>

theorem normalizeAmount_rounds_large_amounts:
  "normalizeAmount ''20000000000000000001'' 18 = ''20.000000000000000000'' \<and>
   exact_amount_text 20000000000000000001 18 = ''20.000000000000000001'' \<and>
   normalizeAmount ''18446744073709551617'' 0 = ''18446744073709551616'' \<and>
   exact_amount_text 18446744073709551617 0 = ''18446744073709551617''"
  by (intro conjI normalizeAmount_20eth exact_text_20eth normalizeAmount_2p64_1 exact_text_2p64_1)

end
